theory Spec2Isabelle
  imports Main "HOL-Library.Word"
begin

section \<open>Python values and strings\<close>

text \<open>
  A Python \<open>str\<close> is a sequence of Unicode code points and \<open>len\<close> counts code points,
  so a string is a list of code points. The ellipsis marker of \<open>_clean\<close> is the single
  code point U+2026.
\<close>

type_synonym uchar = nat
type_synonym ustr = "uchar list"

definition U :: "string \<Rightarrow> ustr" where
  "U s = map of_char s"

definition ELLIPSIS :: uchar where
  "ELLIPSIS = 8230"

text \<open>
  The values that reach the module: what \<open>json.loads\<close> produces (None, bool, int, float,
  str, list, dict with string keys) and the tuples a chat front end passes as history.
  A float is kept as its 64 IEEE bits; only its truth value is ever used.
\<close>

datatype pyval =
    PNone
  | PBool bool
  | PInt int
  | PFloat "64 word"
  | PStr ustr
  | PList "pyval list"
  | PTuple "pyval list"
  | PDict "(ustr \<times> pyval) list"

text \<open>Truth value of a Python object, as \<open>or\<close>, \<open>not\<close> and \<open>if\<close> test it.\<close>

fun truthy :: "pyval \<Rightarrow> bool" where
  "truthy PNone = False"
| "truthy (PBool b) = b"
| "truthy (PInt i) = (i \<noteq> 0)"
| "truthy (PFloat f) = (take_bit 63 f \<noteq> 0)"
| "truthy (PStr s) = (s \<noteq> [])"
| "truthy (PList xs) = (xs \<noteq> [])"
| "truthy (PTuple xs) = (xs \<noteq> [])"
| "truthy (PDict kvs) = (kvs \<noteq> [])"

text \<open>\<open>x or d\<close>\<close>

definition py_or :: "pyval \<Rightarrow> pyval \<Rightarrow> pyval" where
  "py_or x d = (if truthy x then x else d)"

text \<open>
  The exceptions the module can meet, by where they arise. All of them are instances
  of \<open>Exception\<close>. \<open>Fault\<close> is an exception raised by the file system, the provider
  client or another library, given by its class name and its \<open>str()\<close>.
\<close>

datatype py_exc =
    NotAMapping ustr pyval
  | UnexpectedKeyword ustr ustr
  | MissingArguments ustr "ustr list"
  | NoAttribute pyval ustr
  | NotSubscriptable pyval
  | NotIterable pyval
  | WrongCount pyval
  | KeyError pyval
  | IndexError
  | Fault ustr ustr

text \<open>\<open>isinstance(e, TypeError)\<close>\<close>

fun is_TypeError :: "py_exc \<Rightarrow> bool" where
  "is_TypeError (NotAMapping f v) = True"
| "is_TypeError (UnexpectedKeyword f k) = True"
| "is_TypeError (MissingArguments f ks) = True"
| "is_TypeError (NotSubscriptable v) = True"
| "is_TypeError (NotIterable v) = True"
| "is_TypeError (Fault c m) = (c = U ''TypeError'')"
| "is_TypeError (NoAttribute v a) = False"
| "is_TypeError (WrongCount v) = False"
| "is_TypeError (KeyError v) = False"
| "is_TypeError IndexError = False"

text \<open>\<open>type(e).__name__\<close>\<close>

fun exc_name :: "py_exc \<Rightarrow> ustr" where
  "exc_name (NoAttribute v a) = U ''AttributeError''"
| "exc_name (WrongCount v) = U ''ValueError''"
| "exc_name (KeyError v) = U ''KeyError''"
| "exc_name IndexError = U ''IndexError''"
| "exc_name (Fault c m) = c"
| "exc_name e = U ''TypeError''"

text \<open>
  What the module calls and does not define: \<open>json.loads\<close> (\<open>None\<close> when it raises),
  \<open>str.lower\<close>, the text the interpreter gives the exceptions it raises itself, and
  \<open>str()\<close> of a value that is not a string. They are parameters of the model.
\<close>

record pylib =
  json_loads :: "ustr \<Rightarrow> pyval option"
  str_lower :: "ustr \<Rightarrow> ustr"
  runtime_msg :: "py_exc \<Rightarrow> ustr"
  py_repr :: "pyval \<Rightarrow> ustr"

text \<open>\<open>str(e)\<close> and \<open>str(v)\<close>\<close>

definition exc_str :: "pylib \<Rightarrow> py_exc \<Rightarrow> ustr" where
  "exc_str L e = (case e of Fault c m \<Rightarrow> m | _ \<Rightarrow> runtime_msg L e)"

definition py_str :: "pylib \<Rightarrow> pyval \<Rightarrow> ustr" where
  "py_str L v = (case v of PStr s \<Rightarrow> s | _ \<Rightarrow> py_repr L v)"

subsection \<open>String methods\<close>

text \<open>
  \<open>str.isspace\<close> of one code point, the table \<open>str.strip()\<close> and the \<open>\s\<close> of \<open>re\<close>
  both use.
\<close>

definition py_isspace :: "uchar \<Rightarrow> bool" where
  "py_isspace c = ((9 \<le> c \<and> c \<le> 13) \<or> (28 \<le> c \<and> c \<le> 32) \<or> c = 133 \<or> c = 160
     \<or> c = 5760 \<or> (8192 \<le> c \<and> c \<le> 8202) \<or> c = 8232 \<or> c = 8233 \<or> c = 8239
     \<or> c = 8287 \<or> c = 12288)"

text \<open>\<open>s.strip()\<close>\<close>

definition py_strip :: "ustr \<Rightarrow> ustr" where
  "py_strip s = rev (dropWhile py_isspace (rev (dropWhile py_isspace s)))"

text \<open>\<open>s.replace(a, b)\<close> for one-character \<open>a\<close> and \<open>b\<close>\<close>

definition py_replace :: "uchar \<Rightarrow> uchar \<Rightarrow> ustr \<Rightarrow> ustr" where
  "py_replace a b s = map (\<lambda>c. if c = a then b else c) s"

text \<open>\<open>s[:k]\<close>: a negative \<open>k\<close> counts from the end.\<close>

definition py_slice_to :: "ustr \<Rightarrow> int \<Rightarrow> ustr" where
  "py_slice_to s k = (if 0 \<le> k then take (nat k) s else take (nat (int (length s) + k)) s)"

text \<open>\<open>s.startswith(p)\<close>\<close>

definition py_startswith :: "ustr \<Rightarrow> ustr \<Rightarrow> bool" where
  "py_startswith s p = (take (length p) s = p)"

section \<open>The sanitizer\<close>

text \<open>
  \<^verbatim>\<open>
  def _clean(s: str, /, max_len: int = 800) -> str:
      s = (s or "").strip().replace("\r", " ").replace("\n", " ")
      return (s[: max_len - 1] + "...") if len(s) > max_len else s
  \<close>
  (the appended marker is the one character U+2026). A true value that is not a string
  has no \<open>strip\<close>: AttributeError.
\<close>

definition clean_str :: "ustr \<Rightarrow> int \<Rightarrow> ustr" where
  "clean_str s0 max_len =
     (let s = py_replace 10 32 (py_replace 13 32 (py_strip s0))
      in if int (length s) > max_len then py_slice_to s (max_len - 1) @ [ELLIPSIS] else s)"

definition clean :: "pyval \<Rightarrow> int \<Rightarrow> py_exc + ustr" where
  "clean s max_len =
     (case py_or s (PStr []) of
        PStr s0 \<Rightarrow> Inr (clean_str s0 max_len)
      | v \<Rightarrow> Inl (NoAttribute v (U ''strip'')))"

section \<open>The e-mail pattern\<close>

text \<open>
  \<^verbatim>\<open>EMAIL_RE = re.compile(r"^[^@\s]+@[^@\s]+\.[^@\s]+$")\<close>, used through
  \<open>EMAIL_RE.match\<close>. A pattern is a sequence of items, each one character class taken
  once or one or more times; \<open>re_match\<close> tries every split, as the backtracking matcher
  does, from the start of the string (\<open>^\<close>) to its end (\<open>$\<close>, which also matches just
  before a final newline).
\<close>

datatype cclass = Lit uchar | NotAtSpace

datatype item = Once cclass | Many1 cclass

fun accepts :: "cclass \<Rightarrow> uchar \<Rightarrow> bool" where
  "accepts (Lit a) c = (c = a)"
| "accepts NotAtSpace c = (c \<noteq> 64 \<and> \<not> py_isspace c)"

fun re_match :: "item list \<Rightarrow> ustr \<Rightarrow> bool" where
  "re_match [] s = (s = [] \<or> s = [10])"
| "re_match (i # r) [] = False"
| "re_match (Once a # r) (c # cs) = (accepts a c \<and> re_match r cs)"
| "re_match (Many1 a # r) (c # cs) =
     (accepts a c \<and> (re_match (Many1 a # r) cs \<or> re_match r cs))"

definition EMAIL_RE :: "item list" where
  "EMAIL_RE = [Many1 NotAtSpace, Once (Lit 64), Many1 NotAtSpace, Once (Lit 46),
     Many1 NotAtSpace]"

section \<open>The world: files, standard output, provider, environment\<close>

text \<open>
  A log file holds the rows given to \<open>csv.writer(f).writerow\<close> and the objects given to
  \<open>json.dumps\<close>, one per line; their serialisation is the libraries'.
\<close>

datatype line = CsvRow "ustr list" | JsonLine "(ustr \<times> ustr) list"

datatype mode = Truncate | Append

text \<open>
  A write can fail before anything is written (the directory cannot be made, the file
  cannot be opened) or after the line is in the file (flush or fsync fails).
\<close>

datatype io_fault = FailsBefore py_exc | FailsAfter py_exc

record tool_call =
  tc_id :: ustr
  tc_name :: ustr
  tc_arguments :: ustr

datatype message =
    Msg ustr pyval
  | ToolCallsMsg "tool_call list"
  | ToolMsg ustr ustr ustr

text \<open>\<open>resp.choices[i].message\<close>: its \<open>content\<close> (or None) and its \<open>tool_calls\<close> (none: []).\<close>

record reply =
  content :: "ustr option"
  tool_calls :: "tool_call list"

text \<open>
  One \<open>client.chat.completions.create\<close> call: the model, the messages and whether
  \<open>tools=TOOL_SPEC, tool_choice="auto"\<close> are passed. The temperature is the same
  constant in both calls.
\<close>

record request =
  req_model :: ustr
  req_messages :: "message list"
  req_tools :: bool

datatype event = FileWrite mode ustr line | ProviderCall request

text \<open>
  \<open>trace\<close> lists every attempted file write and every provider call, oldest first.
  \<open>faults\<close> and \<open>provider\<close> are the environment's answers: the fault, if any, of the
  write attempted when the trace has length \<open>n\<close>, and the provider's choices for a
  request (or the exception the client raises). \<open>client_error\<close> is the failure, if any,
  of importing and constructing the client. \<open>print_fault\<close> is the exception, if any,
  that \<open>print\<close> raises on a text (a \<open>UnicodeEncodeError\<close> when standard output cannot
  encode it). \<open>base_dir\<close> is \<open>BASE_DIR\<close> and \<open>cwd\<close> is \<open>Path.cwd()\<close>, both as the
  strings of their paths; \<open>now\<close> is the clock reading of \<open>_utc_iso()\<close>,
  \<open>system_prompt\<close> is \<open>SYSTEM_PROMPT\<close>.
\<close>

record world =
  files :: "ustr \<Rightarrow> line list option"
  trace :: "event list"
  faults :: "nat \<Rightarrow> io_fault option"
  stdout :: "ustr list"
  print_fault :: "ustr \<Rightarrow> py_exc option"
  provider :: "request \<Rightarrow> py_exc + reply list"
  client_error :: "py_exc option"
  env_api_key :: "ustr option"
  env_model :: "ustr option"
  base_dir :: ustr
  cwd :: ustr
  now :: ustr
  system_prompt :: ustr

type_synonym 'a io = "world \<Rightarrow> (py_exc + 'a) \<times> world"

text \<open>
  \<open>str(d / name)\<close> for a path \<open>d\<close> and one component \<open>name\<close>: the separator (code
  point 47) is added unless \<open>d\<close> already ends in it, as the root \<open>/\<close> does.
\<close>

definition path_join :: "ustr \<Rightarrow> ustr \<Rightarrow> ustr" where
  "path_join d name =
     (if d = [] then name else if last d = 47 then d @ name else d @ [47] @ name)"

definition LOG_DIR :: "world \<Rightarrow> ustr" where
  "LOG_DIR w = path_join (base_dir w) (U ''logs'')"

definition LEADS_CSV :: "world \<Rightarrow> ustr" where
  "LEADS_CSV w = path_join (LOG_DIR w) (U ''leads.csv'')"

definition LEADS_JSONL :: "world \<Rightarrow> ustr" where
  "LEADS_JSONL w = path_join (LOG_DIR w) (U ''leads.jsonl'')"

definition FEEDBACK_JSONL :: "world \<Rightarrow> ustr" where
  "FEEDBACK_JSONL w = path_join (LOG_DIR w) (U ''feedback.jsonl'')"

text \<open>\<open>Path.cwd() / "logs" / "feedback.jsonl"\<close>\<close>

definition FALLBACK_JSONL :: "world \<Rightarrow> ustr" where
  "FALLBACK_JSONL w = path_join (path_join (cwd w) (U ''logs'')) (U ''feedback.jsonl'')"

definition utc_iso :: "world \<Rightarrow> ustr" where
  "utc_iso w = now w"

text \<open>
  \<open>print(s)\<close>: the line goes to standard output, unless the text cannot be written
  there; then \<open>print\<close> raises and nothing is written.
\<close>

definition py_print :: "ustr \<Rightarrow> unit io" where
  "py_print s w =
     (case print_fault w s of
        Some e \<Rightarrow> (Inl e, w)
      | None \<Rightarrow> (Inr (), w\<lparr>stdout := stdout w @ [s]\<rparr>))"

text \<open>
  Open \<open>path\<close> in mode "w" or "a", write one line, flush, fsync, close. The attempt is
  logged; the fault oracle decides whether it raises.
\<close>

definition write_line :: "mode \<Rightarrow> ustr \<Rightarrow> line \<Rightarrow> unit io" where
  "write_line m path ln w =
     (let old = (case m of Truncate \<Rightarrow> []
                 | Append \<Rightarrow> (case files w path of None \<Rightarrow> [] | Some ls \<Rightarrow> ls));
          w1 = w\<lparr>trace := trace w @ [FileWrite m path ln]\<rparr>;
          w2 = w1\<lparr>files := (files w)(path \<mapsto> old @ [ln])\<rparr>
      in case faults w (length (trace w)) of
           None \<Rightarrow> (Inr (), w2)
         | Some (FailsBefore e) \<Rightarrow> (Inl e, w1)
         | Some (FailsAfter e) \<Rightarrow> (Inl e, w2))"

text \<open>
  \<^verbatim>\<open>
  def _append_jsonl(path, obj):
      path.parent.mkdir(parents=True, exist_ok=True)
      with path.open("a", encoding="utf-8") as f:
          f.write(json.dumps(obj, ensure_ascii=False) + "\n"); f.flush(); os.fsync(f.fileno())
  \<close>
\<close>

definition append_jsonl :: "ustr \<Rightarrow> (ustr \<times> ustr) list \<Rightarrow> unit io" where
  "append_jsonl path obj w = write_line Append path (JsonLine obj) w"

section \<open>The tools\<close>

text \<open>
  The block under \<open>with _WRITE_LOCK:\<close> of \<open>record_customer_interest\<close>: the header
  row when \<open>leads.csv\<close> does not exist, the row, the JSONL mirror. An exception of one
  write leaves the block.
\<close>

definition write_lead :: "ustr \<Rightarrow> ustr \<Rightarrow> ustr \<Rightarrow> ustr \<Rightarrow> unit io" where
  "write_lead ts email name message w =
     (case (if files w (LEADS_CSV w) = None
            then write_line Truncate (LEADS_CSV w)
                   (CsvRow [U ''timestamp'', U ''email'', U ''name'', U ''message'']) w
            else (Inr (), w)) of
        (Inl e, w2) \<Rightarrow> (Inl e, w2)
      | (Inr u, w2) \<Rightarrow>
          (case write_line Append (LEADS_CSV w2) (CsvRow [ts, email, name, message]) w2 of
             (Inl e, w3) \<Rightarrow> (Inl e, w3)
           | (Inr u, w3) \<Rightarrow>
               append_jsonl (LEADS_JSONL w3)
                 [(U ''timestamp'', ts), (U ''email'', email), (U ''name'', name),
                  (U ''message'', message)] w3))"

text \<open>
  \<open>record_customer_interest(email, name, message)\<close>: the three arguments are cleaned in
  this order (a value with no \<open>strip\<close> raises there), then the e-mail is checked, then
  the name; only then is the trace line printed (an exception of \<open>print\<close> leaves the
  function) and the lead written.
\<close>

definition record_customer_interest ::
  "pylib \<Rightarrow> pyval \<Rightarrow> pyval \<Rightarrow> pyval \<Rightarrow> ustr io" where
  "record_customer_interest L email0 name0 message0 w =
     (case clean email0 200 of Inl e \<Rightarrow> (Inl e, w) | Inr email1 \<Rightarrow>
      let email = str_lower L email1 in
      case clean name0 200 of Inl e \<Rightarrow> (Inl e, w) | Inr name \<Rightarrow>
      case clean (py_or message0 (PStr (U ''General inquiry''))) 800 of
        Inl e \<Rightarrow> (Inl e, w) | Inr message \<Rightarrow>
      if \<not> re_match EMAIL_RE email then (Inr (U ''Invalid email address.''), w)
      else if name = [] then (Inr (U ''Please provide a name.''), w)
      else
        let ts = utc_iso w in
        case py_print (U ''[LEAD] '' @ ts @ U '' | '' @ email @ U '' | '' @ name
               @ U '' | '' @ message) w of
          (Inl e, w1) \<Rightarrow> (Inl e, w1)
        | (Inr u, w1) \<Rightarrow>
            (case write_lead ts email name message w1 of
               (Inl e, w4) \<Rightarrow> (Inl e, w4)
             | (Inr u, w4) \<Rightarrow> (Inr (U ''Lead saved.''), w4)))"

text \<open>
  The body of the outer \<open>try\<close> of \<open>record_feedback\<close> (lines 93 to 96): the primary
  append, its trace line, the answer. An exception of either leaves the body.
\<close>

definition try_primary :: "(ustr \<times> ustr) list \<Rightarrow> ustr io" where
  "try_primary entry w =
     (case append_jsonl (FEEDBACK_JSONL w) entry w of
        (Inl e, w2) \<Rightarrow> (Inl e, w2)
      | (Inr u, w2) \<Rightarrow>
          (case py_print (U ''[FEEDBACK'' @ [8594] @ FEEDBACK_JSONL w2 @ U ''] ok'') w2 of
             (Inl e, w3) \<Rightarrow> (Inl e, w3)
           | (Inr u, w3) \<Rightarrow> (Inr (U ''Feedback recorded.''), w3)))"

text \<open>
  The body of the inner \<open>try\<close> (lines 100 to 103): the append to the fallback path, its
  trace line, the answer.
\<close>

definition try_fallback :: "(ustr \<times> ustr) list \<Rightarrow> ustr io" where
  "try_fallback entry w =
     (case append_jsonl (FALLBACK_JSONL w) entry w of
        (Inl e, w2) \<Rightarrow> (Inl e, w2)
      | (Inr u, w2) \<Rightarrow>
          (case py_print (U ''[FEEDBACK'' @ [8594] @ FALLBACK_JSONL w2 @ U ''] fallback ok'') w2 of
             (Inl e, w3) \<Rightarrow> (Inl e, w3)
           | (Inr u, w3) \<Rightarrow>
               (Inr (U ''Feedback recorded (fallback path used: '' @ FALLBACK_JSONL w3 @ U '')''),
                w3)))"

text \<open>
  \<open>record_feedback(question)\<close>. The first trace line (line 88) is printed before the
  \<open>try\<close>: an exception of that \<open>print\<close> leaves the function. An exception of the outer
  body starts the inner one; an exception of the inner body gives the composite answer.
\<close>

definition record_feedback :: "pylib \<Rightarrow> pyval \<Rightarrow> ustr io" where
  "record_feedback L question w =
     (case clean question 1000 of Inl e \<Rightarrow> (Inl e, w) | Inr q \<Rightarrow>
      if q = [] then (Inr (U ''Feedback requires a non-empty question.''), w)
      else
        let ts = utc_iso w in
        case py_print (U ''[FEEDBACK] '' @ ts @ U '' | '' @ q) w of
          (Inl e, w1) \<Rightarrow> (Inl e, w1)
        | (Inr u, w1) \<Rightarrow>
            (let entry = [(U ''timestamp'', ts), (U ''question'', q)]
             in case try_primary entry w1 of
                  (Inr s, w2) \<Rightarrow> (Inr s, w2)
                | (Inl e, w2) \<Rightarrow>
                    (case try_fallback entry w2 of
                       (Inr s, w3) \<Rightarrow> (Inr s, w3)
                     | (Inl e2, w3) \<Rightarrow>
                         (Inr (U ''Failed to record feedback: '' @ exc_str L e
                               @ U '' | fallback error: '' @ exc_str L e2), w3))))"

section \<open>Dispatch\<close>

text \<open>
  Lines 203 to 209 of \<open>_dispatch_tool\<close>: a string is parsed when it is not empty
  (\<open>{}\<close> when \<open>json.loads\<close> raises); otherwise (\<open>elif\<close>) a value that is not a dict
  becomes \<open>{}\<close>.
\<close>

definition normalize_args :: "pylib \<Rightarrow> pyval \<Rightarrow> pyval" where
  "normalize_args L args =
     (case args of
        PStr s \<Rightarrow> (if s \<noteq> [] then (case json_loads L s of Some v \<Rightarrow> v | None \<Rightarrow> PDict [])
                   else PDict [])
      | PDict kvs \<Rightarrow> PDict kvs
      | _ \<Rightarrow> PDict [])"

text \<open>
  The call \<open>f(**args)\<close> of a function whose parameters are \<open>params\<close>, all required:
  \<open>args\<close> must be a mapping, every key a parameter, every parameter a key. Each
  failure is a TypeError raised before the body of \<open>f\<close> runs.
\<close>

definition bind_kwargs :: "ustr \<Rightarrow> ustr list \<Rightarrow> pyval \<Rightarrow> py_exc + (ustr \<Rightarrow> pyval)" where
  "bind_kwargs fname params args =
     (case args of
        PDict kvs \<Rightarrow>
          (case filter (\<lambda>k. k \<notin> set params) (map fst kvs) of
             k # ks \<Rightarrow> Inl (UnexpectedKeyword fname k)
           | [] \<Rightarrow>
               (case filter (\<lambda>p. p \<notin> set (map fst kvs)) params of
                  [] \<Rightarrow> Inr (\<lambda>p. case map_of kvs p of Some v \<Rightarrow> v | None \<Rightarrow> PNone)
                | m # ms \<Rightarrow> Inl (MissingArguments fname (m # ms))))
      | v \<Rightarrow> Inl (NotAMapping fname v))"

text \<open>The \<open>try\<close> body of \<open>_dispatch_tool\<close>.\<close>

definition dispatch_body :: "pylib \<Rightarrow> ustr \<Rightarrow> pyval \<Rightarrow> ustr io" where
  "dispatch_body L name args w =
     (if name = U ''record_customer_interest'' then
        (case bind_kwargs name [U ''email'', U ''name'', U ''message''] args of
           Inl e \<Rightarrow> (Inl e, w)
         | Inr a \<Rightarrow> record_customer_interest L (a (U ''email'')) (a (U ''name''))
                      (a (U ''message'')) w)
      else if name = U ''record_feedback'' then
        (case bind_kwargs name [U ''question''] args of
           Inl e \<Rightarrow> (Inl e, w)
         | Inr a \<Rightarrow> record_feedback L (a (U ''question'')) w)
      else (Inr (U ''Unknown tool: '' @ name), w))"

text \<open>
  \<^verbatim>\<open>
  except TypeError as e: return f"Tool '{name}' argument error: {e}"
  except Exception as e: return f"Tool '{name}' failed: {e}"
  \<close>
\<close>

definition dispatch_tool :: "pylib \<Rightarrow> ustr \<Rightarrow> pyval \<Rightarrow> ustr io" where
  "dispatch_tool L name args w =
     (case dispatch_body L name (normalize_args L args) w of
        (Inr s, w') \<Rightarrow> (Inr s, w')
      | (Inl e, w') \<Rightarrow>
          (if is_TypeError e
           then (Inr (U ''Tool '' @ [39] @ name @ [39] @ U '' argument error: '' @ exc_str L e), w')
           else (Inr (U ''Tool '' @ [39] @ name @ [39] @ U '' failed: '' @ exc_str L e), w')))"

section \<open>Provider check\<close>

text \<open>
  \<^verbatim>\<open>
  k = (os.getenv("OPENAI_API_KEY") or "").strip()
  return (k.startswith(("sk-", "sk-proj-")) and len(k) > 40)
  \<close>
\<close>

definition provider_ready :: "world \<Rightarrow> bool" where
  "provider_ready w =
     (let k = py_strip (case env_api_key w of None \<Rightarrow> [] | Some v \<Rightarrow> v)
      in (py_startswith k (U ''sk-'') \<or> py_startswith k (U ''sk-proj-'')) \<and> length k > 40)"

definition SETUP_MSG :: ustr where
  "SETUP_MSG = U ''(Setup needed) No API key visible to this Python process. Set OPENAI_API_KEY and re-run.''"

section \<open>History adapter\<close>

text \<open>What \<open>for (u, a) in ...\<close> iterates: the items of a list, tuple, string or dict.\<close>

definition iter_items :: "pyval \<Rightarrow> pyval list option" where
  "iter_items v =
     (case v of
        PList xs \<Rightarrow> Some xs
      | PTuple xs \<Rightarrow> Some xs
      | PStr s \<Rightarrow> Some (map (\<lambda>c. PStr [c]) s)
      | PDict kvs \<Rightarrow> Some (map (\<lambda>kv. PStr (fst kv)) kvs)
      | _ \<Rightarrow> None)"

definition unpack2 :: "pyval \<Rightarrow> py_exc + (pyval \<times> pyval)" where
  "unpack2 v =
     (case iter_items v of
        None \<Rightarrow> Inl (NotIterable v)
      | Some [u, a] \<Rightarrow> Inr (u, a)
      | Some xs \<Rightarrow> Inl (WrongCount v))"

text \<open>\<open>[(str(u or ""), str(a or "")) for (u, a) in history]\<close>\<close>

fun pair_form :: "pylib \<Rightarrow> pyval list \<Rightarrow> py_exc + (pyval \<times> pyval) list" where
  "pair_form L [] = Inr []"
| "pair_form L (x # xs) =
     (case unpack2 x of
        Inl e \<Rightarrow> Inl e
      | Inr (u, a) \<Rightarrow>
          (case pair_form L xs of
             Inl e \<Rightarrow> Inl e
           | Inr ps \<Rightarrow> Inr ((PStr (py_str L (py_or u (PStr []))),
                              PStr (py_str L (py_or a (PStr [])))) # ps)))"

text \<open>\<open>m.get(key, default)\<close> of a dict\<close>

definition dict_get :: "(ustr \<times> pyval) list \<Rightarrow> ustr \<Rightarrow> pyval \<Rightarrow> pyval" where
  "dict_get kvs k d = (case map_of kvs k of Some v \<Rightarrow> v | None \<Rightarrow> d)"

text \<open>
  The loop over role-tagged messages, with its two variables \<open>pairs\<close> and \<open>last_user\<close>.
  A message that is not a dict has no \<open>get\<close>.
\<close>

fun role_loop ::
  "(pyval \<times> pyval) list \<Rightarrow> pyval \<Rightarrow> pyval list \<Rightarrow> py_exc + (pyval \<times> pyval) list" where
  "role_loop pairs last_user [] = Inr pairs"
| "role_loop pairs last_user (m # ms) =
     (case m of
        PDict kvs \<Rightarrow>
          (let role = dict_get kvs (U ''role'') PNone;
               content = dict_get kvs (U ''content'') (PStr [])
           in if role = PStr (U ''user'') then role_loop pairs content ms
              else if role = PStr (U ''assistant'')
              then role_loop (pairs @ [(py_or last_user (PStr []), content)]) PNone ms
              else role_loop pairs last_user ms)
      | v \<Rightarrow> Inl (NoAttribute v (U ''get'')))"

definition is_pair_shape :: "pyval \<Rightarrow> bool" where
  "is_pair_shape first =
     (case first of PList xs \<Rightarrow> length xs = 2 | PTuple xs \<Rightarrow> length xs = 2 | _ \<Rightarrow> False)"

definition tuplize_seq :: "pylib \<Rightarrow> pyval list \<Rightarrow> py_exc + (pyval \<times> pyval) list" where
  "tuplize_seq L xs =
     (case xs of
        [] \<Rightarrow> Inr []
      | first # rest \<Rightarrow>
          if is_pair_shape first then pair_form L xs else role_loop [] PNone xs)"

text \<open>
  \<open>_tuplize(history)\<close>. A history that is not a list or tuple fails at \<open>history[0]\<close>
  (a number, a dict with string keys) or at \<open>m.get\<close> (a string, whose items are
  strings).
\<close>

definition tuplize :: "pylib \<Rightarrow> pyval \<Rightarrow> py_exc + (pyval \<times> pyval) list" where
  "tuplize L history =
     (if \<not> truthy history then Inr []
      else case history of
             PList xs \<Rightarrow> tuplize_seq L xs
           | PTuple xs \<Rightarrow> tuplize_seq L xs
           | PStr s \<Rightarrow> Inl (NoAttribute (PStr (take 1 s)) (U ''get''))
           | PDict kvs \<Rightarrow> Inl (KeyError (PInt 0))
           | v \<Rightarrow> Inl (NotSubscriptable v))"

section \<open>The agent\<close>

text \<open>The system message, the history pairs (empty sides skipped), the new user message.\<close>

definition build_messages :: "world \<Rightarrow> (pyval \<times> pyval) list \<Rightarrow> ustr \<Rightarrow> message list" where
  "build_messages w pairs user_text =
     [Msg (U ''system'') (PStr (system_prompt w))]
     @ concat (map (\<lambda>(u, a). (if truthy u then [Msg (U ''user'') u] else [])
                            @ (if truthy a then [Msg (U ''assistant'') a] else [])) pairs)
     @ [Msg (U ''user'') (PStr user_text)]"

text \<open>
  \<open>client.chat.completions.create(...)\<close> followed by \<open>.choices[0].message\<close>: the call
  is logged, then the provider's answer decides.
\<close>

definition call_provider :: "request \<Rightarrow> reply io" where
  "call_provider req w =
     (let w1 = w\<lparr>trace := trace w @ [ProviderCall req]\<rparr>
      in case provider w req of
           Inl e \<Rightarrow> (Inl e, w1)
         | Inr [] \<Rightarrow> (Inl IndexError, w1)
         | Inr (m # ms) \<Rightarrow> (Inr m, w1))"

text \<open>\<open>json.loads(tc.function.arguments or "{}")\<close>, \<open>{}\<close> when it raises.\<close>

definition parse_arguments :: "pylib \<Rightarrow> ustr \<Rightarrow> pyval" where
  "parse_arguments L a =
     (case json_loads L (if a \<noteq> [] then a else U ''{}'') of Some v \<Rightarrow> v | None \<Rightarrow> PDict [])"

text \<open>
  The loop \<open>for tc in msg.tool_calls\<close>: parse, dispatch, append the tool message. An
  exception of the dispatcher would leave the loop.
\<close>

fun tool_round :: "pylib \<Rightarrow> tool_call list \<Rightarrow> message list \<Rightarrow> (message list) io" where
  "tool_round L [] messages w = (Inr messages, w)"
| "tool_round L (tc # tcs) messages w =
     (case dispatch_tool L (tc_name tc) (parse_arguments L (tc_arguments tc)) w of
        (Inl e, w') \<Rightarrow> (Inl e, w')
      | (Inr result, w') \<Rightarrow>
          tool_round L tcs (messages @ [ToolMsg (tc_id tc) (tc_name tc) result]) w')"

text \<open>\<open>x.content or "(no response)"\<close>\<close>

definition content_or_placeholder :: "reply \<Rightarrow> ustr" where
  "content_or_placeholder m =
     (case content m of None \<Rightarrow> U ''(no response)''
      | Some s \<Rightarrow> if s \<noteq> [] then s else U ''(no response)'')"

text \<open>The \<open>try\<close> body of \<open>run_agent\<close>.\<close>

definition agent_body :: "pylib \<Rightarrow> ustr \<Rightarrow> pyval \<Rightarrow> ustr io" where
  "agent_body L user_text history w =
     (case client_error w of Some e \<Rightarrow> (Inl e, w) | None \<Rightarrow>
      let model = (case env_model w of None \<Rightarrow> U ''gpt-4o-mini'' | Some m \<Rightarrow> m) in
      case tuplize L history of Inl e \<Rightarrow> (Inl e, w) | Inr pairs \<Rightarrow>
      let messages = build_messages w pairs user_text in
      case call_provider \<lparr>req_model = model, req_messages = messages, req_tools = True\<rparr> w of
        (Inl e, w1) \<Rightarrow> (Inl e, w1)
      | (Inr msg, w1) \<Rightarrow>
          if tool_calls msg \<noteq> [] then
            (case tool_round L (tool_calls msg) (messages @ [ToolCallsMsg (tool_calls msg)]) w1 of
               (Inl e, w2) \<Rightarrow> (Inl e, w2)
             | (Inr messages2, w2) \<Rightarrow>
                 (case call_provider
                         \<lparr>req_model = model, req_messages = messages2, req_tools = False\<rparr> w2 of
                    (Inl e, w3) \<Rightarrow> (Inl e, w3)
                  | (Inr final, w3) \<Rightarrow> (Inr (content_or_placeholder final), w3)))
          else (Inr (content_or_placeholder msg), w1))"

text \<open>
  \<^verbatim>\<open>
  def run_agent(user_text, history=None):
      if not _provider_ready(): return _SETUP_MSG
      try: ...
      except Exception as e: return f"(Agent error) {type(e).__name__}: {e}"
  \<close>
\<close>

definition run_agent :: "pylib \<Rightarrow> ustr \<Rightarrow> pyval \<Rightarrow> world \<Rightarrow> ustr \<times> world" where
  "run_agent L user_text history w =
     (if \<not> provider_ready w then (SETUP_MSG, w)
      else case agent_body L user_text history w of
             (Inr s, w') \<Rightarrow> (s, w')
           | (Inl e, w') \<Rightarrow>
               (U ''(Agent error) '' @ exc_name e @ U '': '' @ exc_str L e, w'))"

section \<open>Notions used in the statements\<close>

text \<open>
  \<open>well_trimmed\<close>: what \<open>strip\<close> and the two \<open>replace\<close> calls leave unchanged.
\<close>

definition well_trimmed :: "ustr \<Rightarrow> bool" where
  "well_trimmed t =
     ((t = [] \<or> (\<not> py_isspace (hd t) \<and> \<not> py_isspace (last t))) \<and> 10 \<notin> set t \<and> 13 \<notin> set t)"

text \<open>Carriage returns and newlines turned into spaces, as the two \<open>replace\<close> calls do.\<close>

definition collapse :: "ustr \<Rightarrow> ustr" where
  "collapse t = py_replace 10 32 (py_replace 13 32 t)"

text \<open>The domain part of an address: what follows its first \<open>@\<close> (code point 64).\<close>

definition domain_part :: "ustr \<Rightarrow> ustr" where
  "domain_part s = drop 1 (dropWhile (\<lambda>c. c \<noteq> 64) s)"

text \<open>
  What is assumed of \<open>str.lower\<close>: it rewrites a string character by character, leaves
  \<open>@\<close>, the dot and every white-space character as they are, and turns any other
  character into one or more characters that are none of these.
\<close>

definition special :: "uchar \<Rightarrow> bool" where
  "special c = (c = 64 \<or> c = 46 \<or> py_isspace c)"

definition lower_image_ok :: "uchar \<Rightarrow> ustr \<Rightarrow> bool" where
  "lower_image_ok c t =
     (if special c then t = [c] else (t \<noteq> [] \<and> list_all (\<lambda>d. \<not> special d) t))"

definition lower_respects :: "pylib \<Rightarrow> bool" where
  "lower_respects L = (\<forall>s. \<exists>ts. list_all2 lower_image_ok s ts \<and> str_lower L s = concat ts)"

text \<open>
  The text of a lead message before the line breaks are collapsed and the cap is applied:
  the default for an empty message, surrounding white space stripped.
\<close>

definition message_text :: "ustr \<Rightarrow> ustr" where
  "message_text m = py_strip (if m \<noteq> [] then m else U ''General inquiry'')"

text \<open>The exception a failed write raises.\<close>

definition fault_exc :: "io_fault \<Rightarrow> py_exc" where
  "fault_exc f = (case f of FailsBefore e \<Rightarrow> e | FailsAfter e \<Rightarrow> e)"

text \<open>The declared parameters of the two tools (the \<open>required\<close> lists of \<open>TOOL_SPEC\<close>).\<close>

definition tool_params :: "ustr \<Rightarrow> ustr list option" where
  "tool_params name =
     (if name = U ''record_customer_interest'' then Some [U ''email'', U ''name'', U ''message'']
      else if name = U ''record_feedback'' then Some [U ''question'']
      else None)"

text \<open>The handler of a known tool, applied to the bound arguments.\<close>

definition handler :: "pylib \<Rightarrow> ustr \<Rightarrow> (ustr \<Rightarrow> pyval) \<Rightarrow> ustr io" where
  "handler L name a w =
     (if name = U ''record_customer_interest''
      then record_customer_interest L (a (U ''email'')) (a (U ''name'')) (a (U ''message'')) w
      else record_feedback L (a (U ''question'')) w)"

text \<open>The arguments fit when they are a dict whose keys are exactly the parameters.\<close>

definition args_fit :: "ustr list \<Rightarrow> pyval \<Rightarrow> bool" where
  "args_fit params args =
     (case args of PDict kvs \<Rightarrow> set (map fst kvs) = set params | _ \<Rightarrow> False)"

text \<open>
  The contract of the history adapter in the words of its specification. The role and
  the content of a role-tagged message; \<open>pending ds\<close> is the most recent unmatched
  user message after the messages \<open>ds\<close> (\<open>None\<close> when the last user or assistant
  message of \<open>ds\<close> is an assistant message, or there is none); \<open>spec_pairs\<close> emits, for
  each assistant message in order, the pair of the user text pending before it (the
  empty string when none is) and its own content.
\<close>

definition msg_role :: "(ustr \<times> pyval) list \<Rightarrow> pyval" where
  "msg_role d = dict_get d (U ''role'') PNone"

definition msg_content :: "(ustr \<times> pyval) list \<Rightarrow> pyval" where
  "msg_content d = dict_get d (U ''content'') (PStr [])"

definition is_user :: "(ustr \<times> pyval) list \<Rightarrow> bool" where
  "is_user d = (msg_role d = PStr (U ''user''))"

definition is_assistant :: "(ustr \<times> pyval) list \<Rightarrow> bool" where
  "is_assistant d = (msg_role d = PStr (U ''assistant''))"

definition pending :: "(ustr \<times> pyval) list list \<Rightarrow> pyval" where
  "pending ds =
     (case rev (filter (\<lambda>d. is_user d \<or> is_assistant d) ds) of
        [] \<Rightarrow> PNone
      | d # rest \<Rightarrow> if is_user d then msg_content d else PNone)"

definition spec_pairs :: "(ustr \<times> pyval) list list \<Rightarrow> (pyval \<times> pyval) list" where
  "spec_pairs ds =
     map (\<lambda>i. (py_or (pending (take i ds)) (PStr []), msg_content (ds ! i)))
       (filter (\<lambda>i. is_assistant (ds ! i)) [0..<length ds])"

text \<open>One round of the loop of \<open>_tuplize\<close> on its two variables, for the proofs.\<close>

definition loop_step ::
  "(pyval \<times> pyval) list \<times> pyval \<Rightarrow> (ustr \<times> pyval) list \<Rightarrow> (pyval \<times> pyval) list \<times> pyval" where
  "loop_step st d =
     (if is_user d then (fst st, msg_content d)
      else if is_assistant d then (fst st @ [(py_or (snd st) (PStr []), msg_content d)], PNone)
      else st)"

text \<open>
  An event that is a file write, and worlds that differ by file writes only: the same
  provider, and a trace extended by write attempts (standard output and files apart).
\<close>

definition is_file_write :: "event \<Rightarrow> bool" where
  "is_file_write ev = (case ev of FileWrite m p l \<Rightarrow> True | ProviderCall r \<Rightarrow> False)"

definition only_writes :: "world \<Rightarrow> world \<Rightarrow> bool" where
  "only_writes w w' =
     (provider w' = provider w \<and> (\<exists>evs. trace w' = trace w @ evs \<and> list_all is_file_write evs))"

text \<open>
  What \<open>run_agent\<close> returns after the second provider call: the content of the first
  choice (or the placeholder), or the agent-error text of the exception.
\<close>

definition final_answer :: "pylib \<Rightarrow> py_exc + reply list \<Rightarrow> ustr" where
  "final_answer L pr =
     (case pr of
        Inl e \<Rightarrow> U ''(Agent error) '' @ exc_name e @ U '': '' @ exc_str L e
      | Inr [] \<Rightarrow> U ''(Agent error) '' @ exc_name IndexError @ U '': '' @ exc_str L IndexError
      | Inr (f # fs) \<Rightarrow> content_or_placeholder f)"

text \<open>The tool-tagged message of a call and its result.\<close>

definition tool_message :: "tool_call \<Rightarrow> ustr \<Rightarrow> message" where
  "tool_message tc r = ToolMsg (tc_id tc) (tc_name tc) r"

section \<open>A concrete library, world and inputs for the examples\<close>

text \<open>
  \<open>str.lower\<close> on ASCII, \<open>json.loads\<close> on the three texts the examples use (the
  third is the object with the one key \<open>question\<close>, written with its quotation marks,
  code point 34; no example parses any other text), and a world with empty logs in
  which no write fails.
\<close>

definition ascii_lower :: "ustr \<Rightarrow> ustr" where
  "ascii_lower s = map (\<lambda>c. if 65 \<le> c \<and> c \<le> 90 then c + 32 else c) s"

definition bitcoin_json :: ustr where
  "bitcoin_json = [123, 34] @ U ''question'' @ [34, 58, 32, 34] @ U ''Do you accept Bitcoin?''
     @ [34, 125]"

definition demo_loads :: "ustr \<Rightarrow> pyval option" where
  "demo_loads s =
     (if s = U ''{}'' then Some (PDict [])
      else if s = U ''[1, 2]'' then Some (PList [PInt 1, PInt 2])
      else if s = bitcoin_json
      then Some (PDict [(U ''question'', PStr (U ''Do you accept Bitcoin?''))])
      else None)"

definition demo_lib :: pylib where
  "demo_lib = \<lparr>json_loads = demo_loads, str_lower = ascii_lower,
     runtime_msg = (\<lambda>e. U ''<message>''), py_repr = (\<lambda>v. U ''<repr>'')\<rparr>"

definition demo_world :: world where
  "demo_world = \<lparr>files = (\<lambda>p. None), trace = [], faults = (\<lambda>n. None), stdout = [],
     print_fault = (\<lambda>s. None), provider = (\<lambda>r. Inr []), client_error = None, env_api_key = None, env_model = None,
     base_dir = U ''/app'', cwd = U ''/srv'', now = U ''2024-01-01T00:00:00+00:00'',
     system_prompt = U ''You are the assistant.''\<rparr>"

text \<open>
  An address of 206 characters whose only space lies beyond the 199 characters kept, and
  a message of 801 characters that begins with a space.
\<close>

definition long_email :: ustr where
  "long_email = U ''a@b.'' @ replicate 200 99 @ U '' d''"

definition padded_message :: ustr where
  "padded_message = 32 # replicate 800 97"

text \<open>
  Two standard outputs: one that encodes UTF-8 and so cannot write a surrogate code
  point (U+D800 to U+DFFF), one that encodes ASCII only. The exception is a
  \<open>UnicodeEncodeError\<close>, its text abridged.
\<close>

definition utf8_print_fault :: "ustr \<Rightarrow> py_exc option" where
  "utf8_print_fault s =
     (if list_ex (\<lambda>c. 55296 \<le> c \<and> c \<le> 57343) s
      then Some (Fault (U ''UnicodeEncodeError'') (U ''surrogates not allowed''))
      else None)"

definition ascii_print_fault :: "ustr \<Rightarrow> py_exc option" where
  "ascii_print_fault s =
     (if list_ex (\<lambda>c. 127 < c) s
      then Some (Fault (U ''UnicodeEncodeError'') (U ''ordinal not in range(128)''))
      else None)"

definition utf8_world :: world where
  "utf8_world = demo_world\<lparr>print_fault := utf8_print_fault\<rparr>"

definition ascii_world :: world where
  "ascii_world = demo_world\<lparr>print_fault := ascii_print_fault\<rparr>"

text \<open>A world in which every write is refused, and the arguments of a lead.\<close>

definition failing_world :: world where
  "failing_world = demo_world\<lparr>faults := (\<lambda>k. Some (FailsBefore (Fault (U ''PermissionError'') (U ''denied''))))\<rparr>"

definition jane_args :: "(ustr \<times> pyval) list" where
  "jane_args = [(U ''email'', PStr (U ''jane@example.com'')), (U ''name'', PStr (U ''Jane'')),
     (U ''message'', PStr (U ''Pricing''))]"

definition jane_bound :: "ustr \<Rightarrow> pyval" where
  "jane_bound p = (case map_of jane_args p of Some v \<Rightarrow> v | None \<Rightarrow> PNone)"

text \<open>A role-tagged history: two user messages in a row, a system note, a trailing user.\<close>

definition demo_history :: "(ustr \<times> pyval) list list" where
  "demo_history =
     [[(U ''role'', PStr (U ''user'')), (U ''content'', PStr (U ''first''))],
      [(U ''role'', PStr (U ''user'')), (U ''content'', PStr (U ''hours?''))],
      [(U ''role'', PStr (U ''assistant'')), (U ''content'', PStr (U ''9 to 5''))],
      [(U ''role'', PStr (U ''system'')), (U ''content'', PStr (U ''note''))],
      [(U ''role'', PStr (U ''assistant'')), (U ''content'', PStr (U ''anything else?''))],
      [(U ''role'', PStr (U ''user'')), (U ''content'', PStr (U ''bye''))]]"

text \<open>
  A credential with a leading space, a provider that answers at once, a usable
  credential, and a provider that first asks for two tool calls (an unknown tool, then
  \<open>record_feedback\<close>) and then answers.
\<close>

definition padded_key :: ustr where
  "padded_key = 32 # U ''sk-'' @ replicate 40 97"

definition plain_provider :: "request \<Rightarrow> py_exc + reply list" where
  "plain_provider r = Inr [\<lparr>content = Some (U ''We are open 9-5''), tool_calls = []\<rparr>]"

definition demo_key :: ustr where
  "demo_key = U ''sk-'' @ replicate 40 97"

definition demo_calls :: "tool_call list" where
  "demo_calls =
     [\<lparr>tc_id = U ''call_1'', tc_name = U ''get_weather'', tc_arguments = U ''{}''\<rparr>,
      \<lparr>tc_id = U ''call_2'', tc_name = U ''record_feedback'', tc_arguments = bitcoin_json\<rparr>]"

definition tool_provider :: "request \<Rightarrow> py_exc + reply list" where
  "tool_provider r =
     (if req_tools r then Inr [\<lparr>content = None, tool_calls = demo_calls\<rparr>]
      else Inr [\<lparr>content = Some (U ''Noted.''), tool_calls = []\<rparr>])"

definition ready_world :: world where
  "ready_world = demo_world\<lparr>env_api_key := Some demo_key, provider := tool_provider\<rparr>"

section \<open>Facts about strings\<close>

lemma U_Nil [simp]: "U [] = []"
  by (simp add: U_def)

lemma U_Cons [simp]: "U (c # cs) = of_char c # U cs"
  by (simp add: U_def)

lemma isspace_consts [simp]:
  "py_isspace 10" "py_isspace 13" "py_isspace 32" "\<not> py_isspace ELLIPSIS"
  "\<not> py_isspace 64" "\<not> py_isspace 46"
  by (simp_all add: py_isspace_def ELLIPSIS_def)

text \<open>A stripped string is empty or begins and ends with a character that is not a space.\<close>

lemma strip_cases:
  "py_strip s = [] \<or> (\<not> py_isspace (hd (py_strip s)) \<and> \<not> py_isspace (last (py_strip s)))"
proof -
  let ?a = "dropWhile py_isspace s"
  let ?b = "dropWhile py_isspace (rev ?a)"
  show ?thesis
  proof (cases "?b = []")
    case True
    then show ?thesis by (simp add: py_strip_def)
  next
    case False
    then have hb: "\<not> py_isspace (hd ?b)" by (simp add: hd_dropWhile)
    have lst: "last (py_strip s) = hd ?b" using False by (simp add: py_strip_def last_rev)
    have "?a \<noteq> []"
    proof
      assume h: "?a = []"
      have "?b = []" unfolding h by simp
      with False show False by blast
    qed
    then have ha: "\<not> py_isspace (hd ?a)" by (simp add: hd_dropWhile)
    obtain pre where "rev ?a = pre @ ?b" by (metis takeWhile_dropWhile_id)
    then have "?a = rev ?b @ rev pre" by (metis rev_append rev_rev_ident)
    then have "hd ?a = hd (rev ?b)" using False by (metis hd_append2 rev_is_Nil_conv)
    then have "\<not> py_isspace (hd (py_strip s))" using ha by (simp add: py_strip_def)
    then show ?thesis using hb lst by simp
  qed
qed

lemma strip_fix:
  assumes "s = [] \<or> (\<not> py_isspace (hd s) \<and> \<not> py_isspace (last s))"
  shows "py_strip s = s"
proof (cases "s = []")
  case True
  then show ?thesis by (simp add: py_strip_def)
next
  case False
  with assms have h: "\<not> py_isspace (hd s)" "\<not> py_isspace (last s)" by auto
  have 1: "dropWhile py_isspace s = s" using h(1) False by (cases s) auto
  have 2: "dropWhile py_isspace (rev s) = rev s" using h(2) False
    by (cases "rev s") (auto simp: last_rev hd_rev)
  show ?thesis by (simp add: py_strip_def 1 2)
qed

lemma replace_absent: "a \<notin> set t \<Longrightarrow> py_replace a b t = t"
  by (induction t) (auto simp: py_replace_def)

lemma replace_hd: "t \<noteq> [] \<Longrightarrow> hd t \<noteq> a \<Longrightarrow> hd (py_replace a b t) = hd t"
  by (cases t) (auto simp: py_replace_def)

lemma replace_last: "t \<noteq> [] \<Longrightarrow> last t \<noteq> a \<Longrightarrow> last (py_replace a b t) = last t"
  by (simp add: py_replace_def last_map)

lemma replace_Nil [simp]: "(py_replace a b t = []) = (t = [])"
  by (simp add: py_replace_def)

lemma replace_set: "a \<noteq> b \<Longrightarrow> a \<notin> set (py_replace a b t)"
  by (auto simp: py_replace_def)

lemma replace_set_keep: "c \<notin> set t \<Longrightarrow> c \<noteq> b \<Longrightarrow> c \<notin> set (py_replace a b t)"
  by (auto simp: py_replace_def)

lemma length_replace [simp]: "length (py_replace a b t) = length t"
  by (simp add: py_replace_def)

lemma collapse_strip_trimmed: "well_trimmed (collapse (py_strip s))"
proof -
  let ?t = "py_strip s"
  have nl: "10 \<notin> set (collapse ?t)" "13 \<notin> set (collapse ?t)"
    by (simp_all add: collapse_def replace_set replace_set_keep)
  show ?thesis
  proof (cases "?t = []")
    case True
    then show ?thesis by (simp add: well_trimmed_def collapse_def py_replace_def)
  next
    case False
    with strip_cases[of s] have h: "\<not> py_isspace (hd ?t)" "\<not> py_isspace (last ?t)" by auto
    then have ne: "hd ?t \<noteq> 13" "hd ?t \<noteq> 10" "last ?t \<noteq> 13" "last ?t \<noteq> 10"
      by auto
    have "hd (collapse ?t) = hd ?t" using False ne by (simp add: collapse_def replace_hd)
    moreover have "last (collapse ?t) = last ?t"
      using False ne by (simp add: collapse_def replace_last)
    ultimately show ?thesis using h nl by (simp add: well_trimmed_def)
  qed
qed

lemma clean_str_fix:
  assumes "well_trimmed t" "int (length t) \<le> n"
  shows "clean_str t n = t"
proof -
  have "py_strip t = t" using assms(1) by (intro strip_fix) (auto simp: well_trimmed_def)
  moreover have "py_replace 10 32 (py_replace 13 32 t) = t"
    using assms(1) by (simp add: well_trimmed_def replace_absent)
  ultimately show ?thesis using assms(2) by (simp add: clean_str_def)
qed

lemma clean_str_trimmed:
  assumes "1 \<le> n"
  shows "well_trimmed (clean_str s n) \<and> int (length (clean_str s n)) \<le> n"
proof -
  let ?t = "collapse (py_strip s)"
  have wt: "well_trimmed ?t" by (rule collapse_strip_trimmed)
  show ?thesis
  proof (cases "int (length ?t) > n")
    case False
    then show ?thesis using wt by (simp add: clean_str_def collapse_def)
  next
    case True
    let ?r = "take (nat (n - 1)) ?t @ [ELLIPSIS]"
    have r: "clean_str s n = ?r"
      using True assms by (simp add: clean_str_def collapse_def py_slice_to_def)
    have ne: "?t \<noteq> []" using True assms by auto
    have len: "int (length ?r) = n" using True assms by simp
    have hd_r: "\<not> py_isspace (hd ?r)"
    proof (cases "nat (n - 1) = 0")
      case True
      then show ?thesis by simp
    next
      case False
      then have "take (nat (n - 1)) ?t \<noteq> []" using ne by simp
      then have "hd ?r = hd ?t" using False by (simp add: hd_append)
      then show ?thesis using wt ne by (simp add: well_trimmed_def)
    qed
    have "10 \<notin> set ?r \<and> 13 \<notin> set ?r"
      using wt by (auto simp: well_trimmed_def ELLIPSIS_def dest: in_set_takeD)
    then have "well_trimmed ?r" using hd_r by (simp add: well_trimmed_def)
    then show ?thesis using r len by simp
  qed
qed

lemma clean_PStr [simp]: "clean (PStr s) n = Inr (clean_str s n)"
  by (simp add: clean_def py_or_def)

section \<open>Facts about the e-mail pattern\<close>

lemma many1_split:
  "re_match (Many1 a # r) s \<longleftrightarrow>
     (\<exists>p q. s = p @ q \<and> p \<noteq> [] \<and> (\<forall>c\<in>set p. accepts a c) \<and> re_match r q)"
proof (induction s)
  case Nil
  then show ?case by simp
next
  case (Cons c cs)
  show ?case
  proof
    assume "re_match (Many1 a # r) (c # cs)"
    then have ac: "accepts a c" and d: "re_match (Many1 a # r) cs \<or> re_match r cs" by auto
    from d show "\<exists>p q. c # cs = p @ q \<and> p \<noteq> [] \<and> (\<forall>c\<in>set p. accepts a c) \<and> re_match r q"
    proof
      assume "re_match (Many1 a # r) cs"
      with Cons.IH obtain p q where "cs = p @ q" "p \<noteq> []" "\<forall>c\<in>set p. accepts a c" "re_match r q"
        by blast
      with ac have "c # cs = (c # p) @ q \<and> c # p \<noteq> [] \<and> (\<forall>d\<in>set (c # p). accepts a d) \<and> re_match r q"
        by simp
      then show ?thesis by blast
    next
      assume "re_match r cs"
      with ac have "c # cs = [c] @ cs \<and> [c] \<noteq> [] \<and> (\<forall>d\<in>set [c]. accepts a d) \<and> re_match r cs"
        by simp
      then show ?thesis by blast
    qed
  next
    assume "\<exists>p q. c # cs = p @ q \<and> p \<noteq> [] \<and> (\<forall>c\<in>set p. accepts a c) \<and> re_match r q"
    then obtain p q where pq: "c # cs = p @ q" "p \<noteq> []" "\<forall>c\<in>set p. accepts a c" "re_match r q"
      by blast
    then obtain p' where p: "p = c # p'" by (cases p) auto
    with pq have ac: "accepts a c" and cs: "cs = p' @ q" by auto
    show "re_match (Many1 a # r) (c # cs)"
    proof (cases "p' = []")
      case True
      with cs pq(4) ac show ?thesis by simp
    next
      case False
      with pq p cs have "re_match (Many1 a # r) cs" using Cons.IH by auto
      with ac show ?thesis by simp
    qed
  qed
qed

lemma once_split:
  "re_match (Once a # r) s \<longleftrightarrow> (\<exists>c q. s = c # q \<and> accepts a c \<and> re_match r q)"
  by (cases s) auto

lemma email_match_iff:
  "re_match EMAIL_RE s \<longleftrightarrow>
     (\<exists>l x y t. s = l @ [64] @ x @ [46] @ y @ t \<and> l \<noteq> [] \<and> x \<noteq> [] \<and> y \<noteq> []
        \<and> (\<forall>c\<in>set (l @ x @ y). c \<noteq> 64 \<and> \<not> py_isspace c) \<and> (t = [] \<or> t = [10]))"
  (is "?lhs \<longleftrightarrow> ?rhs")
proof
  assume ?lhs
  then obtain l q1 where 1: "s = l @ q1" "l \<noteq> []" "\<forall>c\<in>set l. accepts NotAtSpace c"
      "re_match [Once (Lit 64), Many1 NotAtSpace, Once (Lit 46), Many1 NotAtSpace] q1"
    unfolding EMAIL_RE_def many1_split by blast
  from 1(4) obtain q2 where 2: "q1 = 64 # q2"
      "re_match [Many1 NotAtSpace, Once (Lit 46), Many1 NotAtSpace] q2"
    unfolding once_split by auto
  from 2(2) obtain x q3 where 3: "q2 = x @ q3" "x \<noteq> []" "\<forall>c\<in>set x. accepts NotAtSpace c"
      "re_match [Once (Lit 46), Many1 NotAtSpace] q3"
    unfolding many1_split by blast
  from 3(4) obtain q4 where 4: "q3 = 46 # q4" "re_match [Many1 NotAtSpace] q4"
    unfolding once_split by auto
  from 4(2) obtain y t where 5: "q4 = y @ t" "y \<noteq> []" "\<forall>c\<in>set y. accepts NotAtSpace c"
      "re_match [] t"
    unfolding many1_split by blast
  have "s = l @ [64] @ x @ [46] @ y @ t" using 1 2 3 4 5 by simp
  moreover have "\<forall>c\<in>set (l @ x @ y). c \<noteq> 64 \<and> \<not> py_isspace c" using 1(3) 3(3) 5(3) by auto
  moreover have "t = [] \<or> t = [10]" using 5(4) by simp
  ultimately show ?rhs using 1(2) 3(2) 5(2) by blast
next
  assume ?rhs
  then obtain l x y t where h: "s = l @ [64] @ x @ [46] @ y @ t" "l \<noteq> []" "x \<noteq> []" "y \<noteq> []"
      "\<forall>c\<in>set (l @ x @ y). c \<noteq> 64 \<and> \<not> py_isspace c" "t = [] \<or> t = [10]"
    by blast
  have 5: "re_match [Many1 NotAtSpace] (y @ t)"
    unfolding many1_split using h(4,5,6) by (intro exI[of _ y] exI[of _ t]) auto
  have 4: "re_match [Once (Lit 46), Many1 NotAtSpace] (46 # y @ t)"
    using 5 by simp
  have 3: "re_match [Many1 NotAtSpace, Once (Lit 46), Many1 NotAtSpace] (x @ 46 # y @ t)"
    unfolding many1_split using h(3,5) 4 by (intro exI[of _ x] exI[of _ "46 # y @ t"]) auto
  have 2: "re_match [Once (Lit 64), Many1 NotAtSpace, Once (Lit 46), Many1 NotAtSpace]
             (64 # x @ 46 # y @ t)"
    using 3 by simp
  have "re_match EMAIL_RE (l @ 64 # x @ 46 # y @ t)"
    unfolding EMAIL_RE_def many1_split using h(2,5) 2
    by (intro exI[of _ l] exI[of _ "64 # x @ 46 # y @ t"]) auto
  then show ?lhs using h(1) by simp
qed

lemma domain_part_Nil [simp]: "domain_part [] = []"
  by (simp add: domain_part_def)

lemma domain_part_Cons [simp]: "domain_part (c # cs) = (if c = 64 then cs else domain_part cs)"
  by (simp add: domain_part_def)

lemma domain_part_skip: "\<forall>c\<in>set p. c \<noteq> 64 \<Longrightarrow> domain_part (p @ s) = domain_part s"
  by (induction p) auto

lemma email_match_at: "re_match EMAIL_RE s \<Longrightarrow> 64 \<in> set s"
  unfolding email_match_iff by auto

lemma email_match_dot: "re_match EMAIL_RE s \<Longrightarrow> 46 \<in> set (domain_part s)"
proof -
  assume "re_match EMAIL_RE s"
  then obtain l x y t where h: "s = l @ [64] @ x @ [46] @ y @ t"
      "\<forall>c\<in>set (l @ x @ y). c \<noteq> 64 \<and> \<not> py_isspace c"
    unfolding email_match_iff by blast
  have "domain_part s = x @ [46] @ y @ t"
    using h by (simp add: domain_part_skip)
  then show ?thesis by simp
qed

lemma email_match_nospace: "re_match EMAIL_RE s \<Longrightarrow> 10 \<notin> set s \<Longrightarrow> c \<in> set s \<Longrightarrow> \<not> py_isspace c"
  unfolding email_match_iff by auto

lemma domain_part_take: "set (domain_part (take k s)) \<subseteq> set (domain_part s)"
proof (induction s arbitrary: k)
  case Nil
  then show ?case by simp
next
  case (Cons c cs)
  show ?case
  proof (cases k)
    case 0
    then show ?thesis by simp
  next
    case (Suc j)
    then show ?thesis using Cons.IH[of j] by (auto dest: in_set_takeD)
  qed
qed

lemma domain_part_dropWhile_space: "domain_part (dropWhile py_isspace s) = domain_part s"
  by (induction s) auto

lemma domain_part_snoc: "set (domain_part (s @ [x])) \<subseteq> insert x (set (domain_part s))"
  by (induction s) auto

lemma domain_part_replace: "a \<noteq> 64 \<Longrightarrow> b \<noteq> 64 \<Longrightarrow> domain_part (py_replace a b s) = py_replace a b (domain_part s)"
  by (induction s) (auto simp: py_replace_def)

lemma strip_is_take: "\<exists>k. py_strip s = take k (dropWhile py_isspace s)"
proof -
  let ?a = "dropWhile py_isspace s"
  have "rev ?a = takeWhile py_isspace (rev ?a) @ dropWhile py_isspace (rev ?a)" by simp
  then have "?a = rev (dropWhile py_isspace (rev ?a)) @ rev (takeWhile py_isspace (rev ?a))"
    by (metis rev_append rev_rev_ident)
  then have "take (length (dropWhile py_isspace (rev ?a))) ?a = rev (dropWhile py_isspace (rev ?a))"
    by (metis append_eq_conv_conj length_rev)
  then show ?thesis unfolding py_strip_def by metis
qed

lemma slice_is_take: "\<exists>k. py_slice_to s n = take k s"
  unfolding py_slice_to_def by auto

lemma clean_str_unfold:
  "clean_str s n = (let t = collapse (py_strip s) in
      if int (length t) > n then py_slice_to t (n - 1) @ [ELLIPSIS] else t)"
  by (simp add: clean_str_def collapse_def)

lemma domain_dot_strip: "46 \<in> set (domain_part (collapse (py_strip s))) \<Longrightarrow> 46 \<in> set (domain_part s)"
proof -
  assume a: "46 \<in> set (domain_part (collapse (py_strip s)))"
  have "domain_part (collapse (py_strip s)) = collapse (domain_part (py_strip s))"
    by (simp add: collapse_def domain_part_replace)
  with a have "46 \<in> set (domain_part (py_strip s))"
    by (auto simp: collapse_def py_replace_def split: if_splits)
  moreover obtain k where "py_strip s = take k (dropWhile py_isspace s)"
    using strip_is_take by blast
  ultimately have "46 \<in> set (domain_part (dropWhile py_isspace s))"
    using domain_part_take by fastforce
  then show ?thesis by (simp add: domain_part_dropWhile_space)
qed

lemma domain_dot_clean: "46 \<in> set (domain_part (clean_str s n)) \<Longrightarrow> 46 \<in> set (domain_part s)"
proof -
  assume a: "46 \<in> set (domain_part (clean_str s n))"
  let ?t = "collapse (py_strip s)"
  have "46 \<in> set (domain_part ?t)"
  proof (cases "int (length ?t) > n")
    case False
    with a show ?thesis by (simp add: clean_str_unfold)
  next
    case True
    obtain k where k: "py_slice_to ?t (n - 1) = take k ?t" using slice_is_take by blast
    from True a have "46 \<in> set (domain_part (take k ?t @ [ELLIPSIS]))"
      by (simp add: clean_str_unfold k)
    then have "46 \<in> set (domain_part (take k ?t))"
      using domain_part_snoc[of "take k ?t" ELLIPSIS] by (auto simp: ELLIPSIS_def)
    then show ?thesis using domain_part_take by fastforce
  qed
  then show ?thesis by (rule domain_dot_strip)
qed

lemma at_clean: "64 \<in> set (clean_str s n) \<Longrightarrow> 64 \<in> set s"
proof -
  assume a: "64 \<in> set (clean_str s n)"
  let ?t = "collapse (py_strip s)"
  obtain k where k: "py_slice_to ?t (n - 1) = take k ?t" using slice_is_take by blast
  have "64 \<in> set ?t" using a
    by (auto simp: clean_str_unfold Let_def k ELLIPSIS_def split: if_splits dest: in_set_takeD)
  then have "64 \<in> set (py_strip s)"
    by (auto simp: collapse_def py_replace_def split: if_splits)
  moreover obtain j where "py_strip s = take j (dropWhile py_isspace s)"
    using strip_is_take by blast
  ultimately show ?thesis by (auto dest: in_set_takeD set_dropWhileD)
qed


lemma special_consts [simp]: "special 64" "special 46" "special 10" "\<not> special ELLIPSIS"
  by (simp_all add: special_def ELLIPSIS_def py_isspace_def)

lemma lower_special_mem:
  "list_all2 lower_image_ok s ts \<Longrightarrow> special d \<Longrightarrow> d \<in> set (concat ts) \<longleftrightarrow> d \<in> set s"
proof (induction rule: list_all2_induct)
  case Nil
  then show ?case by simp
next
  case (Cons c t s ts)
  then show ?case by (auto simp: lower_image_ok_def list_all_iff split: if_splits)
qed

lemma lower_domain_part:
  "list_all2 lower_image_ok s ts \<Longrightarrow> special d \<Longrightarrow> d \<in> set (domain_part (concat ts))
     \<Longrightarrow> d \<in> set (domain_part s)"
proof (induction rule: list_all2_induct)
  case Nil
  then show ?case by simp
next
  case (Cons c s t ts)
  show ?case
  proof (cases "special c")
    case True
    with Cons.hyps have t: "t = [c]" by (simp add: lower_image_ok_def)
    show ?thesis
    proof (cases "c = 64")
      case True
      with t Cons.prems have "d \<in> set (concat ts)" by simp
      then have "d \<in> set s"
        using lower_special_mem[OF Cons.hyps(2) Cons.prems(1)] by blast
      with True show ?thesis by simp
    next
      case False
      with t Cons.prems Cons.IH show ?thesis by simp
    qed
  next
    case False
    with Cons.hyps have "\<forall>x\<in>set t. \<not> special x" by (simp add: lower_image_ok_def list_all_iff)
    then have no: "\<forall>x\<in>set t. x \<noteq> 64" by auto
    have c: "c \<noteq> 64" using False by auto
    from Cons.prems have "d \<in> set (domain_part (concat ts))"
      by (simp add: domain_part_skip[OF no])
    with Cons.IH Cons.prems c show ?thesis by simp
  qed
qed

lemma space_survives_clean:
  assumes "c \<in> set (take 199 (py_strip e))" "py_isspace c"
  shows "\<exists>d\<in>set (clean_str e 200). py_isspace d"
proof -
  let ?g = "\<lambda>c. if (if c = 13 then 32 else c) = 10 then 32 else (if c = 13 then 32 else c)"
  let ?t = "collapse (py_strip e)"
  have t: "?t = map ?g (py_strip e)" by (simp add: collapse_def py_replace_def)
  have g: "py_isspace (?g c)" using assms(2) by simp
  have "?g c \<in> ?g ` set (take 199 (py_strip e))" using assms(1) by (rule imageI)
  then have "?g c \<in> set (take 199 ?t)" unfolding t take_map by (simp only: set_map)
  moreover have "set (take 199 ?t) \<subseteq> set (clean_str e 200)"
    by (auto simp: clean_str_unfold Let_def py_slice_to_def dest: in_set_takeD)
  ultimately show ?thesis using g by blast
qed

lemma email_rejected_aux:
  assumes "lower_respects L"
      and "64 \<notin> set e \<or> 46 \<notin> set (domain_part e) \<or> (\<exists>c\<in>set (take 199 (py_strip e)). py_isspace c)"
  shows "\<not> re_match EMAIL_RE (str_lower L (clean_str e 200))"
proof
  let ?c = "clean_str e 200"
  assume m: "re_match EMAIL_RE (str_lower L ?c)"
  from assms(1) obtain ts where ts: "list_all2 lower_image_ok ?c ts" "str_lower L ?c = concat ts"
    unfolding lower_respects_def by blast
  have wt: "well_trimmed ?c" using clean_str_trimmed[of 200 e] by simp
  from assms(2) show False
  proof (elim disjE)
    assume "64 \<notin> set e"
    moreover have "64 \<in> set ?c"
      using email_match_at[OF m] lower_special_mem[OF ts(1) special_consts(1)]
      unfolding ts(2) by blast
    ultimately show False using at_clean by blast
  next
    assume "46 \<notin> set (domain_part e)"
    moreover have "46 \<in> set (domain_part ?c)"
      using email_match_dot[OF m] lower_domain_part[OF ts(1) special_consts(2)]
      unfolding ts(2) by blast
    ultimately show False using domain_dot_clean by blast
  next
    assume "\<exists>c\<in>set (take 199 (py_strip e)). py_isspace c"
    then obtain d where d: "d \<in> set ?c" "py_isspace d" using space_survives_clean by blast
    then have sd: "special d" by (simp add: special_def)
    have "10 \<notin> set ?c" using wt by (simp add: well_trimmed_def)
    then have nl: "10 \<notin> set (str_lower L ?c)"
      using lower_special_mem[OF ts(1) special_consts(3)] unfolding ts(2) by blast
    have "d \<in> set (str_lower L ?c)"
      using d(1) lower_special_mem[OF ts(1) sd] unfolding ts(2) by blast
    with email_match_nospace[OF m nl] d(2) show False by blast
  qed
qed

lemma clean_py_or_PStr [simp]:
  "clean (py_or (PStr m) (PStr d)) k = Inr (clean_str (if m \<noteq> [] then m else d) k)"
  by (simp add: py_or_def)

section \<open>Facts about the log files and the examples\<close>

lemma demo_lib_lower: "lower_respects demo_lib"
proof -
  let ?f = "\<lambda>c::nat. if 65 \<le> c \<and> c \<le> 90 then c + 32 else c"
  have ok: "lower_image_ok c [?f c]" for c
    by (auto simp: lower_image_ok_def special_def py_isspace_def)
  have "list_all2 lower_image_ok s (map (\<lambda>c. [?f c]) s) \<and> str_lower demo_lib s = concat (map (\<lambda>c. [?f c]) s)" for s
    by (induction s) (simp_all add: ok demo_lib_def ascii_lower_def)
  then show ?thesis unfolding lower_respects_def by blast
qed

lemma U_inject [simp]: "U s = U t \<longleftrightarrow> s = t"
  by (simp add: U_def inj_map_eq_map inj_on_def)

lemma paths_differ [simp]: "LEADS_CSV w \<noteq> LEADS_JSONL w" "LEADS_JSONL w \<noteq> LEADS_CSV w"
  by (simp_all add: LEADS_CSV_def LEADS_JSONL_def path_join_def)

lemma path_fields [simp]:
  "LEADS_CSV (w\<lparr>trace := t\<rparr>) = LEADS_CSV w" "LEADS_CSV (w\<lparr>files := f\<rparr>) = LEADS_CSV w"
  "LEADS_CSV (w\<lparr>stdout := s\<rparr>) = LEADS_CSV w"
  "LEADS_JSONL (w\<lparr>trace := t\<rparr>) = LEADS_JSONL w" "LEADS_JSONL (w\<lparr>files := f\<rparr>) = LEADS_JSONL w"
  "LEADS_JSONL (w\<lparr>stdout := s\<rparr>) = LEADS_JSONL w"
  "FEEDBACK_JSONL (w\<lparr>trace := t\<rparr>) = FEEDBACK_JSONL w" "FEEDBACK_JSONL (w\<lparr>files := f\<rparr>) = FEEDBACK_JSONL w"
  "FEEDBACK_JSONL (w\<lparr>stdout := s\<rparr>) = FEEDBACK_JSONL w"
  "FALLBACK_JSONL (w\<lparr>trace := t\<rparr>) = FALLBACK_JSONL w" "FALLBACK_JSONL (w\<lparr>files := f\<rparr>) = FALLBACK_JSONL w"
  "FALLBACK_JSONL (w\<lparr>stdout := s\<rparr>) = FALLBACK_JSONL w"
  by (simp_all add: LEADS_CSV_def LEADS_JSONL_def FEEDBACK_JSONL_def FALLBACK_JSONL_def LOG_DIR_def)

text \<open>What a \<open>print\<close> does to the world.\<close>

lemma fallback_path_root:
  "path_join (path_join (U ''/'') (U ''logs'')) (U ''feedback.jsonl'') = U ''/logs/feedback.jsonl''"
  "path_join (path_join (U ''/srv'') (U ''logs'')) (U ''feedback.jsonl'') = U ''/srv/logs/feedback.jsonl''"
  by (simp_all add: path_join_def)

lemma py_print_facts:
  assumes "py_print s w = (r, w')"
  shows "trace w' = trace w" "faults w' = faults w" "files w' = files w"
    "base_dir w' = base_dir w" "now w' = now w" "cwd w' = cwd w" "provider w' = provider w"
    "print_fault w' = print_fault w"
  using assms by (auto simp: py_print_def split: option.splits)

lemma py_print_ok:
  assumes "py_print s w = (Inr u, w')"
  shows "print_fault w s = None" "w' = w\<lparr>stdout := stdout w @ [s]\<rparr>"
  using assms by (auto simp: py_print_def split: option.splits)

lemma py_print_result:
  "py_print s w = (r, w') \<Longrightarrow>
     r = (case print_fault w s of None \<Rightarrow> Inr () | Some e \<Rightarrow> Inl e)"
  by (auto simp: py_print_def split: option.splits)

lemma write_line_facts:
  assumes "write_line md p ln w = (r, w')"
  shows "trace w' = trace w @ [FileWrite md p ln]" "faults w' = faults w" "stdout w' = stdout w"
    "base_dir w' = base_dir w" "now w' = now w" "cwd w' = cwd w"
    "q \<noteq> p \<Longrightarrow> files w' q = files w q"
  using assms by (auto simp: write_line_def Let_def split: option.splits io_fault.splits)

lemma write_line_ok:
  assumes "write_line md p ln w = (Inr u, w')"
  shows "faults w (length (trace w)) = None"
    "files w' p = Some ((case md of Truncate \<Rightarrow> []
        | Append \<Rightarrow> (case files w p of None \<Rightarrow> [] | Some ls \<Rightarrow> ls)) @ [ln])"
  using assms by (auto simp: write_line_def Let_def split: option.splits io_fault.splits)

lemma write_lead_ok:
  assumes "write_lead ts e n s w = (Inr u, w')"
  shows "\<exists>rows objs. files w' (LEADS_CSV w) = Some (rows @ [CsvRow [ts, e, n, s]])
           \<and> files w' (LEADS_JSONL w) = Some (objs @ [JsonLine [(U ''timestamp'', ts),
                (U ''email'', e), (U ''name'', n), (U ''message'', s)]])"
proof -
  let ?hdr = "(if files w (LEADS_CSV w) = None
            then write_line Truncate (LEADS_CSV w)
                   (CsvRow [U ''timestamp'', U ''email'', U ''name'', U ''message'']) w
            else (Inr (), w))"
  let ?entry = "[(U ''timestamp'', ts), (U ''email'', e), (U ''name'', n), (U ''message'', s)]"
  obtain r2 w2 where h2: "?hdr = (r2, w2)" by (cases ?hdr)
  obtain r3 w3 where h3: "write_line Append (LEADS_CSV w2) (CsvRow [ts, e, n, s]) w2 = (r3, w3)"
    by (cases "write_line Append (LEADS_CSV w2) (CsvRow [ts, e, n, s]) w2")
  have r2: "r2 = Inr ()" using assms h2 unfolding write_lead_def
    by (cases r2) (simp_all del: U_Cons)
  have r3: "r3 = Inr ()" using assms h2 h3 r2 unfolding write_lead_def
    by (cases r3) (simp_all del: U_Cons)
  have h4: "write_line Append (LEADS_JSONL w3) (JsonLine ?entry) w3 = (Inr u, w')"
    using assms h2 h3 r2 r3 unfolding write_lead_def append_jsonl_def by (simp del: U_Cons)
  have b2: "base_dir w2 = base_dir w"
    using h2 write_line_facts(4) by (auto split: if_splits)
  then have p2: "LEADS_CSV w2 = LEADS_CSV w"
    by (simp add: LEADS_CSV_def LOG_DIR_def)
  have b3: "base_dir w3 = base_dir w" using write_line_facts(4)[OF h3] b2 by simp
  then have p3: "LEADS_JSONL w3 = LEADS_JSONL w"
    by (simp add: LEADS_JSONL_def LOG_DIR_def)
  have f3: "\<exists>rows. files w3 (LEADS_CSV w) = Some (rows @ [CsvRow [ts, e, n, s]])"
    using write_line_ok(2)[OF h3[unfolded r3 p2]] by (simp del: U_Cons)
  have "files w' (LEADS_CSV w) = files w3 (LEADS_CSV w)"
    using write_line_facts(7)[OF h4, of "LEADS_CSV w"] p3 by simp
  moreover have "\<exists>objs. files w' (LEADS_JSONL w) = Some (objs @ [JsonLine ?entry])"
    using write_line_ok(2)[OF h4[unfolded p3]] by (simp del: U_Cons)
  ultimately show ?thesis using f3 by auto
qed

lemma stored_aux:
  assumes "record_customer_interest L email name (PStr m) w = (Inr (U ''Lead saved.''), w')"
      and "s = clean_str (if m \<noteq> [] then m else U ''General inquiry'') 800"
  shows "\<exists>ts e n rows objs.
           files w' (LEADS_CSV w) = Some (rows @ [CsvRow [ts, e, n, s]])
         \<and> files w' (LEADS_JSONL w) = Some (objs @ [JsonLine [(U ''timestamp'', ts), (U ''email'', e),
               (U ''name'', n), (U ''message'', s)]])"
proof -
  have c3: "clean (py_or (PStr m) (PStr (U ''General inquiry''))) 800 = Inr s"
    using assms(2) by (simp del: U_Cons)
  obtain e1 where c1: "clean email 200 = Inr e1"
    using assms(1) by (cases "clean email 200") (auto simp: record_customer_interest_def)
  obtain n1 where c2: "clean name 200 = Inr n1"
    using assms(1) c1 by (cases "clean name 200") (auto simp: record_customer_interest_def Let_def)
  let ?e = "str_lower L e1"
  let ?line = "U ''[LEAD] '' @ utc_iso w @ U '' | '' @ ?e @ U '' | '' @ n1 @ U '' | '' @ s"
  obtain rp w1 where p: "py_print ?line w = (rp, w1)" by (cases "py_print ?line w")
  obtain r w4 where h: "write_lead (utc_iso w) ?e n1 s w1 = (r, w4)"
    by (cases "write_lead (utc_iso w) ?e n1 s w1")
  have "rp = Inr () \<and> r = Inr () \<and> w4 = w'"
    using assms(1) c1 c2 c3 p h unfolding record_customer_interest_def Let_def
    by (cases rp; cases r) (simp_all split: if_splits)
  with h have "write_lead (utc_iso w) ?e n1 s w1 = (Inr (), w')" by simp
  from write_lead_ok[OF this] show ?thesis
    using py_print_facts(4)[OF p]
    by (simp add: LEADS_CSV_def LEADS_JSONL_def LOG_DIR_def del: U_Cons) blast
qed

lemma clean_str_long:
  assumes "n < int (length (py_strip x))" "1 \<le> n"
  shows "length (clean_str x n) = nat n" "last (clean_str x n) = ELLIPSIS"
    "butlast (clean_str x n) = take (nat n - 1) (collapse (py_strip x))"
  using assms by (simp_all add: clean_str_unfold collapse_def py_slice_to_def nat_diff_distrib)

lemma clean_str_short:
  assumes "int (length (py_strip x)) \<le> n"
  shows "clean_str x n = collapse (py_strip x)"
  using assms by (simp add: clean_str_unfold collapse_def)

lemma strip_no_edges: "s \<noteq> [] \<Longrightarrow> \<not> py_isspace (hd s) \<Longrightarrow> \<not> py_isspace (last s) \<Longrightarrow> py_strip s = s"
  by (rule strip_fix) simp

lemma strip_long_email: "py_strip long_email = long_email"
  by (rule strip_no_edges) (simp_all add: long_email_def py_isspace_def)

lemma clean_long_email: "clean_str long_email 200 = U ''a@b.'' @ replicate 195 99 @ [ELLIPSIS]"
proof -
  have "collapse long_email = long_email"
    by (simp add: collapse_def long_email_def replace_absent)
  then show ?thesis
    by (simp add: clean_str_unfold strip_long_email py_slice_to_def)
       (simp add: long_email_def)
qed

lemma lower_long_email:
  "ascii_lower (U ''a@b.'' @ replicate 195 99 @ [ELLIPSIS]) = U ''a@b.'' @ replicate 195 99 @ [ELLIPSIS]"
  by (simp add: ascii_lower_def ELLIPSIS_def)

lemma match_long_email: "re_match EMAIL_RE (U ''a@b.'' @ replicate 195 99 @ [ELLIPSIS])"
  unfolding email_match_iff
  by (intro exI[of _ "[97]"] exI[of _ "[98]"] exI[of _ "replicate 195 99 @ [ELLIPSIS]"] exI[of _ "[]"])
     (simp add: py_isspace_def ELLIPSIS_def)

lemma clean_padded: "clean_str padded_message 800 = replicate 800 97"
proof -
  have "dropWhile py_isspace (replicate 800 97) = replicate 800 (97::nat)"
    by (simp add: dropWhile_eq_self_iff py_isspace_def)
  then have "py_strip padded_message = replicate 800 97"
    by (simp add: py_strip_def padded_message_def)
  moreover have "collapse (replicate 800 97) = replicate 800 97"
    by (simp add: collapse_def replace_absent)
  ultimately show ?thesis by (simp add: clean_str_unfold)
qed

lemma clean_jane: "clean_str (U ''jane@example.com'') 200 = U ''jane@example.com''"
  "clean_str (U ''Jane'') 200 = U ''Jane''" "clean_str (U ''Pricing'') 800 = U ''Pricing''"
  "clean_str (U '' hi'') 800 = U ''hi''"
  by (simp_all add: clean_str_def py_strip_def py_isspace_def py_replace_def)

lemma lead_saved_run:
  assumes "clean_str e 200 = e1" "str_lower L e1 = e2" "re_match EMAIL_RE e2"
    and "clean_str n 200 = n1" "n1 \<noteq> []"
    and "clean_str (if m \<noteq> [] then m else U ''General inquiry'') 800 = m1"
    and "faults w = (\<lambda>k. None)" "files w = (\<lambda>p. None)" "print_fault w = (\<lambda>t. None)"
  shows "record_customer_interest L (PStr e) (PStr n) (PStr m) w =
    (Inr (U ''Lead saved.''),
     w\<lparr>stdout := stdout w @ [U ''[LEAD] '' @ now w @ U '' | '' @ e2 @ U '' | '' @ n1 @ U '' | '' @ m1],
       trace := trace w @
         [FileWrite Truncate (LEADS_CSV w)
            (CsvRow [U ''timestamp'', U ''email'', U ''name'', U ''message'']),
          FileWrite Append (LEADS_CSV w) (CsvRow [now w, e2, n1, m1]),
          FileWrite Append (LEADS_JSONL w)
            (JsonLine [(U ''timestamp'', now w), (U ''email'', e2), (U ''name'', n1),
               (U ''message'', m1)])],
       files := [LEADS_CSV w \<mapsto>
                   [CsvRow [U ''timestamp'', U ''email'', U ''name'', U ''message''],
                    CsvRow [now w, e2, n1, m1]],
                 LEADS_JSONL w \<mapsto>
                   [JsonLine [(U ''timestamp'', now w), (U ''email'', e2), (U ''name'', n1),
                      (U ''message'', m1)]]]\<rparr>)"
  using assms
  by (simp add: record_customer_interest_def write_lead_def write_line_def append_jsonl_def
      utc_iso_def py_print_def Let_def path_fields del: U_Cons)

lemma demo_world_fields [simp]:
  "faults demo_world = (\<lambda>k. None)" "files demo_world = (\<lambda>p. None)"
  "trace demo_world = []" "stdout demo_world = []" "now demo_world = U ''2024-01-01T00:00:00+00:00''"
  "base_dir demo_world = U ''/app''" "cwd demo_world = U ''/srv''"
  "print_fault demo_world = (\<lambda>t. None)"
  by (simp_all add: demo_world_def del: U_Cons)

lemma demo_lib_fields [simp]: "str_lower demo_lib = ascii_lower" "json_loads demo_lib = demo_loads"
  by (simp_all add: demo_lib_def)

lemma match_jane: "re_match EMAIL_RE (U ''jane@example.com'')"
  by (simp add: EMAIL_RE_def py_isspace_def)

lemma lower_jane: "str_lower demo_lib (U ''jane@example.com'') = U ''jane@example.com''"
  by (simp add: ascii_lower_def)

lemma demo_lead_run:
  assumes "clean_str (if m \<noteq> [] then m else U ''General inquiry'') 800 = m1"
  shows "record_customer_interest demo_lib (PStr (U ''jane@example.com'')) (PStr (U ''Jane''))
        (PStr m) demo_world =
    (Inr (U ''Lead saved.''),
     demo_world\<lparr>stdout := [U ''[LEAD] '' @ U ''2024-01-01T00:00:00+00:00'' @ U '' | ''
           @ U ''jane@example.com'' @ U '' | '' @ U ''Jane'' @ U '' | '' @ m1],
       trace :=
         [FileWrite Truncate (LEADS_CSV demo_world)
            (CsvRow [U ''timestamp'', U ''email'', U ''name'', U ''message'']),
          FileWrite Append (LEADS_CSV demo_world)
            (CsvRow [U ''2024-01-01T00:00:00+00:00'', U ''jane@example.com'', U ''Jane'', m1]),
          FileWrite Append (LEADS_JSONL demo_world)
            (JsonLine [(U ''timestamp'', U ''2024-01-01T00:00:00+00:00''),
               (U ''email'', U ''jane@example.com''), (U ''name'', U ''Jane''), (U ''message'', m1)])],
       files := [LEADS_CSV demo_world \<mapsto>
                   [CsvRow [U ''timestamp'', U ''email'', U ''name'', U ''message''],
                    CsvRow [U ''2024-01-01T00:00:00+00:00'', U ''jane@example.com'', U ''Jane'', m1]],
                 LEADS_JSONL demo_world \<mapsto>
                   [JsonLine [(U ''timestamp'', U ''2024-01-01T00:00:00+00:00''),
                      (U ''email'', U ''jane@example.com''), (U ''name'', U ''Jane''),
                      (U ''message'', m1)]]]\<rparr>)"
proof -
  have j: "U ''Jane'' \<noteq> []" by simp
  show ?thesis
    using lead_saved_run[OF clean_jane(1) lower_jane match_jane clean_jane(2) j assms
      demo_world_fields(1) demo_world_fields(2) demo_world_fields(8)]
    by (simp del: U_Cons)
qed

lemma strip_blank: "\<forall>c\<in>set n. py_isspace c \<Longrightarrow> py_strip n = []"
proof -
  assume "\<forall>c\<in>set n. py_isspace c"
  then have "dropWhile py_isspace n = []" by simp
  then show ?thesis by (simp only: py_strip_def rev.simps dropWhile.simps)
qed

lemma clean_blank: "\<forall>c\<in>set n. py_isspace c \<Longrightarrow> clean_str n k = (if k < 0 then [ELLIPSIS] else [])"
  by (simp add: clean_str_def strip_blank py_replace_def py_slice_to_def)

section \<open>Facts about writes and dispatch\<close>

lemma write_line_result:
  "\<exists>w'. write_line md p ln w =
     ((case faults w (length (trace w)) of None \<Rightarrow> Inr () | Some f \<Rightarrow> Inl (fault_exc f)), w')
     \<and> trace w' = trace w @ [FileWrite md p ln] \<and> faults w' = faults w \<and> cwd w' = cwd w
     \<and> base_dir w' = base_dir w"
  by (auto simp: write_line_def Let_def fault_exc_def split: option.splits io_fault.splits)

text \<open>The outcome of the two \<open>try\<close> bodies of \<open>record_feedback\<close>.\<close>

lemma try_primary_result:
  "\<exists>w'. try_primary entry w =
       ((case faults w (length (trace w)) of
           Some f \<Rightarrow> Inl (fault_exc f)
         | None \<Rightarrow>
             (case print_fault w (U ''[FEEDBACK'' @ [8594] @ FEEDBACK_JSONL w @ U ''] ok'') of
                Some e \<Rightarrow> Inl e
              | None \<Rightarrow> Inr (U ''Feedback recorded.''))), w')
     \<and> trace w' = trace w @ [FileWrite Append (FEEDBACK_JSONL w) (JsonLine entry)]
     \<and> faults w' = faults w \<and> cwd w' = cwd w \<and> base_dir w' = base_dir w
     \<and> print_fault w' = print_fault w"
  by (auto simp: try_primary_def append_jsonl_def write_line_def py_print_def Let_def
      fault_exc_def path_fields simp del: U_Cons split: option.splits io_fault.splits)

lemma try_fallback_result:
  "\<exists>w'. try_fallback entry w =
       ((case faults w (length (trace w)) of
           Some f \<Rightarrow> Inl (fault_exc f)
         | None \<Rightarrow>
             (case print_fault w (U ''[FEEDBACK'' @ [8594] @ FALLBACK_JSONL w @ U ''] fallback ok'') of
                Some e \<Rightarrow> Inl e
              | None \<Rightarrow> Inr (U ''Feedback recorded (fallback path used: '' @ FALLBACK_JSONL w
                               @ U '')''))), w')
     \<and> trace w' = trace w @ [FileWrite Append (FALLBACK_JSONL w) (JsonLine entry)]
     \<and> faults w' = faults w \<and> cwd w' = cwd w \<and> base_dir w' = base_dir w
     \<and> print_fault w' = print_fault w"
  by (auto simp: try_fallback_def append_jsonl_def write_line_def py_print_def Let_def
      fault_exc_def path_fields simp del: U_Cons split: option.splits io_fault.splits)

lemma failing_world_fields [simp]:
  "faults failing_world = (\<lambda>k. Some (FailsBefore (Fault (U ''PermissionError'') (U ''denied''))))"
  "files failing_world = (\<lambda>p. None)" "trace failing_world = []" "stdout failing_world = []"
  "now failing_world = U ''2024-01-01T00:00:00+00:00''"
  "base_dir failing_world = U ''/app''" "cwd failing_world = U ''/srv''"
  "print_fault failing_world = (\<lambda>t. None)"
  by (simp_all add: failing_world_def demo_world_def del: U_Cons)

lemma bind_kwargs_fit:
  "args_fit params args \<Longrightarrow> \<exists>a. bind_kwargs f params args = Inr a"
  by (cases args) (auto simp: args_fit_def bind_kwargs_def filter_empty_conv split: list.splits)

lemma bind_kwargs_misfit:
  "\<not> args_fit params args \<Longrightarrow> \<exists>e. bind_kwargs f params args = Inl e \<and> is_TypeError e"
proof (cases args)
  case (PDict kvs)
  assume n: "\<not> args_fit params args"
  show ?thesis
  proof (cases "filter (\<lambda>k. k \<notin> set params) (map fst kvs)")
    case (Cons k ks)
    then show ?thesis using PDict by (simp add: bind_kwargs_def)
  next
    case Nil
    then have sub: "set (map fst kvs) \<subseteq> set params" by (auto simp: filter_empty_conv)
    with n PDict have "filter (\<lambda>p. p \<notin> set (map fst kvs)) params \<noteq> []"
      by (auto simp: args_fit_def filter_empty_conv)
    then obtain m ms where "filter (\<lambda>p. p \<notin> set (map fst kvs)) params = m # ms"
      by (cases "filter (\<lambda>p. p \<notin> set (map fst kvs)) params") auto
    then show ?thesis using PDict Nil by (simp add: bind_kwargs_def)
  qed
qed (simp_all add: bind_kwargs_def)

lemma dispatch_body_known:
  "tool_params name = Some params \<Longrightarrow>
     dispatch_body L name args w =
       (case bind_kwargs name params args of Inl e \<Rightarrow> (Inl e, w) | Inr a \<Rightarrow> handler L name a w)"
  by (auto simp: tool_params_def dispatch_body_def handler_def simp del: U_Cons
      split: if_splits sum.splits)

lemma dispatch_body_unknown:
  "tool_params name = None \<Longrightarrow> dispatch_body L name args w = (Inr (U ''Unknown tool: '' @ name), w)"
  by (auto simp: tool_params_def dispatch_body_def simp del: U_Cons split: if_splits)

lemma dispatch_tool_returns: "\<exists>s w'. dispatch_tool L name args w = (Inr s, w')"
proof -
  obtain r w1 where b: "dispatch_body L name (normalize_args L args) w = (r, w1)"
    by (cases "dispatch_body L name (normalize_args L args) w")
  show ?thesis unfolding dispatch_tool_def b by (cases r) (simp_all del: U_Cons)
qed

lemma jane_bind:
  "bind_kwargs (U ''record_customer_interest'') [U ''email'', U ''name'', U ''message'']
     (normalize_args demo_lib (PDict jane_args)) = Inr jane_bound"
  by (simp add: bind_kwargs_def normalize_args_def jane_args_def jane_bound_def fun_eq_iff)

lemma jane_fails:
  "handler demo_lib (U ''record_customer_interest'') jane_bound failing_world =
     (Inl (Fault (U ''PermissionError'') (U ''denied'')),
      failing_world\<lparr>stdout := [U ''[LEAD] 2024-01-01T00:00:00+00:00 | jane@example.com | Jane | Pricing''],
        trace := [FileWrite Truncate (U ''/app/logs/leads.csv'')
                    (CsvRow [U ''timestamp'', U ''email'', U ''name'', U ''message''])]\<rparr>)"
  by (simp add: handler_def jane_bound_def jane_args_def record_customer_interest_def
      clean_str_def py_strip_def py_replace_def write_lead_def write_line_def utc_iso_def
      py_print_def LEADS_CSV_def LOG_DIR_def path_join_def Let_def ascii_lower_def EMAIL_RE_def
      py_isspace_def)

section \<open>Facts about the history adapter\<close>

lemma user_not_assistant: "is_user d \<Longrightarrow> \<not> is_assistant d"
  by (simp add: is_user_def is_assistant_def)

lemma role_loop_foldl:
  "role_loop ps lu (map PDict ds) = Inr (fst (foldl loop_step (ps, lu) ds))"
proof (induction ds arbitrary: ps lu)
  case Nil
  then show ?case by simp
next
  case (Cons d ds)
  show ?case
    by (simp add: Cons.IH loop_step_def is_user_def is_assistant_def msg_role_def msg_content_def
        Let_def del: U_Cons)
qed

lemma pending_snoc:
  "pending (ds @ [d]) = (if is_user d then msg_content d else if is_assistant d then PNone else pending ds)"
  by (simp add: pending_def)

lemma spec_pairs_snoc:
  "spec_pairs (ds @ [d]) =
     spec_pairs ds @ (if is_assistant d then [(py_or (pending ds) (PStr []), msg_content d)] else [])"
proof -
  let ?A = "\<lambda>i. is_assistant (ds ! i)"
  let ?A' = "\<lambda>i. is_assistant ((ds @ [d]) ! i)"
  let ?F = "\<lambda>i. (py_or (pending (take i ds)) (PStr []), msg_content (ds ! i))"
  let ?F' = "\<lambda>i. (py_or (pending (take i (ds @ [d]))) (PStr []), msg_content ((ds @ [d]) ! i))"
  let ?n = "length ds"
  have 1: "filter ?A' [0..<?n] = filter ?A [0..<?n]"
    by (rule filter_cong) (simp_all add: nth_append)
  have 2: "map ?F' (filter ?A [0..<?n]) = map ?F (filter ?A [0..<?n])"
    by (rule map_cong) (auto simp: nth_append)
  have 3: "map ?F' (filter ?A' [?n]) =
      (if is_assistant d then [(py_or (pending ds) (PStr []), msg_content d)] else [])"
    by simp
  have "spec_pairs (ds @ [d]) = map ?F' (filter ?A' ([0..<?n] @ [?n]))"
    by (simp add: spec_pairs_def)
  also have "\<dots> = map ?F' (filter ?A' [0..<?n]) @ map ?F' (filter ?A' [?n])"
    by (simp only: filter_append map_append)
  also have "\<dots> = map ?F (filter ?A [0..<?n]) @ map ?F' (filter ?A' [?n])"
    by (simp only: 1 2)
  also have "\<dots> = spec_pairs ds @ (if is_assistant d then [(py_or (pending ds) (PStr []), msg_content d)] else [])"
    by (simp only: 3 spec_pairs_def)
  finally show ?thesis .
qed

lemma foldl_spec: "foldl loop_step ([], PNone) ds = (spec_pairs ds, pending ds)"
proof (induction ds rule: rev_induct)
  case Nil
  then show ?case by (simp add: spec_pairs_def pending_def)
next
  case (snoc d ds)
  then show ?case
    by (simp add: loop_step_def spec_pairs_snoc pending_snoc user_not_assistant)
qed

lemma tuplize_dicts: "tuplize L (PList (map PDict ds)) = Inr (spec_pairs ds)"
proof (cases ds)
  case Nil
  then show ?thesis by (simp add: tuplize_def spec_pairs_def)
next
  case (Cons d rest)
  have "tuplize L (PList (map PDict ds)) = role_loop [] PNone (map PDict ds)"
    using Cons by (simp add: tuplize_def tuplize_seq_def is_pair_shape_def)
  then show ?thesis by (simp add: role_loop_foldl foldl_spec)
qed

lemma tuplize_dicts_tuple: "tuplize L (PTuple (map PDict ds)) = Inr (spec_pairs ds)"
proof (cases ds)
  case Nil
  then show ?thesis by (simp add: tuplize_def spec_pairs_def)
next
  case (Cons d rest)
  have "tuplize L (PTuple (map PDict ds)) = role_loop [] PNone (map PDict ds)"
    using Cons by (simp add: tuplize_def tuplize_seq_def is_pair_shape_def)
  then show ?thesis by (simp add: role_loop_foldl foldl_spec)
qed

section \<open>Facts about the agent\<close>

lemma length_strip_le: "length (py_strip k) \<le> length k"
proof -
  obtain j where "py_strip k = take j (dropWhile py_isspace k)" using strip_is_take by blast
  then have "length (py_strip k) \<le> length (dropWhile py_isspace k)" by simp
  also have "\<dots> \<le> length k" by (rule length_dropWhile_le)
  finally show ?thesis .
qed

lemma startswith_prefix: "py_startswith k (p @ q) \<Longrightarrow> py_startswith k p"
proof -
  assume "py_startswith k (p @ q)"
  then have h: "take (length p + length q) k = p @ q" by (simp add: py_startswith_def)
  have "take (length p) k = take (length p) (take (length p + length q) k)" by (simp add: min_def)
  also have "\<dots> = p" unfolding h by simp
  finally show ?thesis by (simp add: py_startswith_def)
qed

lemma startswith_proj: "py_startswith k (U ''sk-proj-'') \<Longrightarrow> py_startswith k (U ''sk-'')"
proof -
  have "U ''sk-proj-'' = U ''sk-'' @ U ''proj-''" by simp
  then show "py_startswith k (U ''sk-proj-'') \<Longrightarrow> py_startswith k (U ''sk-'')"
    using startswith_prefix[of k "U ''sk-''" "U ''proj-''"] by (simp only:)
qed

lemma only_writes_refl [simp]: "only_writes w w"
  by (simp add: only_writes_def)

lemma only_writes_trans: "only_writes w w1 \<Longrightarrow> only_writes w1 w2 \<Longrightarrow> only_writes w w2"
  by (auto simp: only_writes_def)

lemma only_writes_print: "py_print s w = (r, w') \<Longrightarrow> only_writes w w'"
  by (auto simp: only_writes_def py_print_def split: option.splits)

lemma only_writes_write_line: "write_line md p ln w = (r, w') \<Longrightarrow> only_writes w w'"
  by (auto simp: write_line_def Let_def only_writes_def is_file_write_def
      split: option.splits io_fault.splits)

lemma only_writes_write_lead: "write_lead ts e n m w = (r, w') \<Longrightarrow> only_writes w w'"
proof -
  assume a: "write_lead ts e n m w = (r, w')"
  let ?hdr = "(if files w (LEADS_CSV w) = None
            then write_line Truncate (LEADS_CSV w)
                   (CsvRow [U ''timestamp'', U ''email'', U ''name'', U ''message'']) w
            else (Inr (), w))"
  obtain r2 w2 where h2: "?hdr = (r2, w2)" by (cases ?hdr)
  have o2: "only_writes w w2" using h2 only_writes_write_line by (auto split: if_splits)
  show ?thesis
  proof (cases r2)
    case (Inl e2)
    with a h2 have "w' = w2" unfolding write_lead_def by (simp del: U_Cons)
    with o2 show ?thesis by simp
  next
    case (Inr u2)
    obtain r3 w3 where h3: "write_line Append (LEADS_CSV w2) (CsvRow [ts, e, n, m]) w2 = (r3, w3)"
      by (cases "write_line Append (LEADS_CSV w2) (CsvRow [ts, e, n, m]) w2")
    have o3: "only_writes w w3" using o2 only_writes_write_line[OF h3] by (rule only_writes_trans)
    show ?thesis
    proof (cases r3)
      case (Inl e3)
      with a h2 h3 Inr have "w' = w3" unfolding write_lead_def by (simp del: U_Cons)
      with o3 show ?thesis by simp
    next
      case (Inr u3)
      with a h2 h3 \<open>r2 = Inr u2\<close> have "write_line Append (LEADS_JSONL w3)
        (JsonLine [(U ''timestamp'', ts), (U ''email'', e), (U ''name'', n), (U ''message'', m)]) w3 = (r, w')"
        unfolding write_lead_def append_jsonl_def by (simp del: U_Cons)
      from only_writes_write_line[OF this] o3 show ?thesis by (metis only_writes_trans)
    qed
  qed
qed

lemma only_writes_lead: "record_customer_interest L e n m w = (r, w') \<Longrightarrow> only_writes w w'"
proof -
  assume a: "record_customer_interest L e n m w = (r, w')"
  show ?thesis
  proof (cases "clean e 200")
    case (Inl x)
    with a show ?thesis by (simp add: record_customer_interest_def)
  next
    case e1: (Inr e1)
    show ?thesis
    proof (cases "clean n 200")
      case (Inl x)
      with a e1 show ?thesis by (simp add: record_customer_interest_def Let_def)
    next
      case n1: (Inr n1)
      show ?thesis
      proof (cases "clean (py_or m (PStr (U ''General inquiry''))) 800")
        case (Inl x)
        with a e1 n1 show ?thesis by (simp add: record_customer_interest_def Let_def del: U_Cons)
      next
        case m1: (Inr m1)
        let ?line = "U ''[LEAD] '' @ utc_iso w @ U '' | '' @ str_lower L e1 @ U '' | '' @ n1
                   @ U '' | '' @ m1"
        obtain rp w1 where p: "py_print ?line w = (rp, w1)" by (cases "py_print ?line w")
        obtain r4 w4 where h: "write_lead (utc_iso w) (str_lower L e1) n1 m1 w1 = (r4, w4)"
          by (cases "write_lead (utc_iso w) (str_lower L e1) n1 m1 w1")
        have o1: "only_writes w w1" using p by (rule only_writes_print)
        have o: "only_writes w w4"
          using o1 only_writes_write_lead[OF h] by (rule only_writes_trans)
        have "w' = w \<or> w' = w1 \<or> w' = w4"
          using a e1 n1 m1 p h
          by (cases rp; cases r4)
             (auto simp: record_customer_interest_def Let_def simp del: U_Cons split: if_splits)
        with o o1 show ?thesis by auto
      qed
    qed
  qed
qed

lemma only_writes_try_primary: "try_primary entry w = (r, w') \<Longrightarrow> only_writes w w'"
proof -
  assume a: "try_primary entry w = (r, w')"
  obtain r2 w2 where h2: "write_line Append (FEEDBACK_JSONL w) (JsonLine entry) w = (r2, w2)"
    by (cases "write_line Append (FEEDBACK_JSONL w) (JsonLine entry) w")
  let ?line = "U ''[FEEDBACK'' @ [8594] @ FEEDBACK_JSONL w2 @ U ''] ok''"
  obtain r3 w3 where h3: "py_print ?line w2 = (r3, w3)" by (cases "py_print ?line w2")
  have o2: "only_writes w w2" using h2 by (rule only_writes_write_line)
  have o3: "only_writes w w3" using o2 only_writes_print[OF h3] by (rule only_writes_trans)
  have "w' = w2 \<or> w' = w3"
    using a h2 h3
    by (cases r2; cases r3) (auto simp: try_primary_def append_jsonl_def simp del: U_Cons)
  with o2 o3 show ?thesis by auto
qed

lemma only_writes_try_fallback: "try_fallback entry w = (r, w') \<Longrightarrow> only_writes w w'"
proof -
  assume a: "try_fallback entry w = (r, w')"
  obtain r2 w2 where h2: "write_line Append (FALLBACK_JSONL w) (JsonLine entry) w = (r2, w2)"
    by (cases "write_line Append (FALLBACK_JSONL w) (JsonLine entry) w")
  let ?line = "U ''[FEEDBACK'' @ [8594] @ FALLBACK_JSONL w2 @ U ''] fallback ok''"
  obtain r3 w3 where h3: "py_print ?line w2 = (r3, w3)" by (cases "py_print ?line w2")
  have o2: "only_writes w w2" using h2 by (rule only_writes_write_line)
  have o3: "only_writes w w3" using o2 only_writes_print[OF h3] by (rule only_writes_trans)
  have "w' = w2 \<or> w' = w3"
    using a h2 h3
    by (cases r2; cases r3) (auto simp: try_fallback_def append_jsonl_def simp del: U_Cons)
  with o2 o3 show ?thesis by auto
qed

lemma only_writes_feedback: "record_feedback L q w = (r, w') \<Longrightarrow> only_writes w w'"
proof -
  assume a: "record_feedback L q w = (r, w')"
  show ?thesis
  proof (cases "clean q 1000")
    case (Inl x)
    with a show ?thesis by (simp add: record_feedback_def)
  next
    case q1: (Inr q1)
    let ?line = "U ''[FEEDBACK] '' @ utc_iso w @ U '' | '' @ q1"
    let ?entry = "[(U ''timestamp'', utc_iso w), (U ''question'', q1)]"
    obtain rp w1 where p: "py_print ?line w = (rp, w1)" by (cases "py_print ?line w")
    obtain r2 w2 where h2: "try_primary ?entry w1 = (r2, w2)" by (cases "try_primary ?entry w1")
    obtain r3 w3 where h3: "try_fallback ?entry w2 = (r3, w3)" by (cases "try_fallback ?entry w2")
    have o1: "only_writes w w1" using p by (rule only_writes_print)
    have o2: "only_writes w w2"
      using o1 only_writes_try_primary[OF h2] by (rule only_writes_trans)
    have o3: "only_writes w w3"
      using o2 only_writes_try_fallback[OF h3] by (rule only_writes_trans)
    have "w' = w \<or> w' = w1 \<or> w' = w2 \<or> w' = w3"
      using a q1 p h2 h3
      by (cases rp; cases r2; cases r3)
         (auto simp: record_feedback_def Let_def simp del: U_Cons split: if_splits)
    with o1 o2 o3 show ?thesis by auto
  qed
qed

lemma only_writes_dispatch: "dispatch_tool L name args w = (r, w') \<Longrightarrow> only_writes w w'"
proof -
  assume a: "dispatch_tool L name args w = (r, w')"
  obtain rb wb where b: "dispatch_body L name (normalize_args L args) w = (rb, wb)"
    by (cases "dispatch_body L name (normalize_args L args) w")
  have w': "w' = wb" using a b by (cases rb) (auto simp: dispatch_tool_def simp del: U_Cons split: if_splits)
  have "only_writes w wb"
    using b only_writes_lead only_writes_feedback
    by (auto simp: dispatch_body_def simp del: U_Cons split: if_splits sum.splits)
  with w' show ?thesis by simp
qed

lemma tool_round_all:
  "\<exists>results worlds. length results = length tcs \<and> length worlds = Suc (length tcs)
     \<and> worlds ! 0 = w
     \<and> (\<forall>i<length tcs.
           dispatch_tool L (tc_name (tcs ! i)) (parse_arguments L (tc_arguments (tcs ! i)))
             (worlds ! i) = (Inr (results ! i), worlds ! Suc i))
     \<and> tool_round L tcs msgs w = (Inr (msgs @ map2 tool_message tcs results), last worlds)"
proof (induction tcs arbitrary: msgs w)
  case Nil
  show ?case by (rule exI[of _ "[]"], rule exI[of _ "[w]"]) simp
next
  case (Cons tc tcs)
  obtain r w1 where d: "dispatch_tool L (tc_name tc) (parse_arguments L (tc_arguments tc)) w
      = (Inr r, w1)"
    using dispatch_tool_returns by blast
  from Cons.IH[of w1 "msgs @ [tool_message tc r]"]
  obtain results worlds where ih: "length results = length tcs" "length worlds = Suc (length tcs)"
    "worlds ! 0 = w1"
    "\<forall>i<length tcs.
           dispatch_tool L (tc_name (tcs ! i)) (parse_arguments L (tc_arguments (tcs ! i)))
             (worlds ! i) = (Inr (results ! i), worlds ! Suc i)"
    "tool_round L tcs (msgs @ [tool_message tc r]) w1
       = (Inr ((msgs @ [tool_message tc r]) @ map2 tool_message tcs results), last worlds)"
    by blast
  have ne: "worlds \<noteq> []" using ih(2) by auto
  have step: "\<forall>i<length (tc # tcs).
           dispatch_tool L (tc_name ((tc # tcs) ! i)) (parse_arguments L (tc_arguments ((tc # tcs) ! i)))
             ((w # worlds) ! i) = (Inr ((r # results) ! i), (w # worlds) ! Suc i)"
  proof (intro allI impI)
    fix i
    assume "i < length (tc # tcs)"
    then show "dispatch_tool L (tc_name ((tc # tcs) ! i)) (parse_arguments L (tc_arguments ((tc # tcs) ! i)))
             ((w # worlds) ! i) = (Inr ((r # results) ! i), (w # worlds) ! Suc i)"
      using d ih(3,4) by (cases i) auto
  qed
  have run: "tool_round L (tc # tcs) msgs w
      = (Inr (msgs @ map2 tool_message (tc # tcs) (r # results)), last (w # worlds))"
    using d ih(5) ne by (simp add: tool_message_def)
  show ?case
    by (rule exI[of _ "r # results"], rule exI[of _ "w # worlds"]) (use ih(1,2) step run in simp)
qed

lemma call_provider_eq:
  "call_provider req w =
     ((case provider w req of Inl e \<Rightarrow> Inl e | Inr [] \<Rightarrow> Inl IndexError | Inr (f # fs) \<Rightarrow> Inr f),
      w\<lparr>trace := trace w @ [ProviderCall req]\<rparr>)"
  by (simp add: call_provider_def Let_def split: sum.splits list.splits)

lemma only_writes_chain:
  assumes "length worlds = Suc n"
    and "\<forall>i<n. only_writes (worlds ! i) (worlds ! Suc i)"
  shows "only_writes (worlds ! 0) (last worlds)"
  using assms
proof (induction n arbitrary: worlds)
  case 0
  then obtain x where "worlds = [x]" by (cases worlds) auto
  then show ?case by simp
next
  case (Suc n)
  then obtain x rest where w: "worlds = x # rest" by (cases worlds) auto
  with Suc.prems have l: "length rest = Suc n" by simp
  have "\<forall>i<n. only_writes (rest ! i) (rest ! Suc i)"
    using Suc.prems(2) w by auto
  from Suc.IH[OF l this] have r: "only_writes (rest ! 0) (last rest)" .
  have "only_writes x (rest ! 0)" using Suc.prems(2) w by auto
  then have "only_writes x (last rest)" using r by (rule only_writes_trans)
  moreover have "rest \<noteq> []" using l by auto
  ultimately show ?case using w by simp
qed

lemma ready_world_ready: "provider_ready ready_world"
proof -
  have "py_strip demo_key = demo_key"
    by (rule strip_no_edges) (simp_all add: demo_key_def py_isspace_def)
  then show ?thesis
    by (simp add: provider_ready_def ready_world_def py_startswith_def) (simp add: demo_key_def)
qed

lemma demo_run:
  "run_agent demo_lib (U ''Do you accept Bitcoin?'') PNone ready_world =
     (U ''Noted.'',
      ready_world\<lparr>stdout := [U ''[FEEDBACK] 2024-01-01T00:00:00+00:00 | Do you accept Bitcoin?'',
                             U ''[FEEDBACK'' @ [8594] @ U ''/app/logs/feedback.jsonl] ok''],
        files := [U ''/app/logs/feedback.jsonl'' \<mapsto>
                    [JsonLine [(U ''timestamp'', U ''2024-01-01T00:00:00+00:00''),
                       (U ''question'', U ''Do you accept Bitcoin?'')]]],
        trace :=
          [ProviderCall \<lparr>req_model = U ''gpt-4o-mini'',
              req_messages = [Msg (U ''system'') (PStr (U ''You are the assistant.'')),
                              Msg (U ''user'') (PStr (U ''Do you accept Bitcoin?''))],
              req_tools = True\<rparr>,
           FileWrite Append (U ''/app/logs/feedback.jsonl'')
             (JsonLine [(U ''timestamp'', U ''2024-01-01T00:00:00+00:00''),
                (U ''question'', U ''Do you accept Bitcoin?'')]),
           ProviderCall \<lparr>req_model = U ''gpt-4o-mini'',
              req_messages = [Msg (U ''system'') (PStr (U ''You are the assistant.'')),
                              Msg (U ''user'') (PStr (U ''Do you accept Bitcoin?'')),
                              ToolCallsMsg demo_calls,
                              ToolMsg (U ''call_1'') (U ''get_weather'') (U ''Unknown tool: get_weather''),
                              ToolMsg (U ''call_2'') (U ''record_feedback'') (U ''Feedback recorded.'')],
              req_tools = False\<rparr>]\<rparr>)"
  using ready_world_ready
  by (simp add: run_agent_def agent_body_def tuplize_def build_messages_def call_provider_def
      tool_provider_def demo_calls_def content_or_placeholder_def ready_world_def demo_world_def
      parse_arguments_def demo_lib_def demo_loads_def bitcoin_json_def dispatch_tool_def
      dispatch_body_def normalize_args_def bind_kwargs_def record_feedback_def clean_def py_or_def
      clean_str_def py_strip_def py_isspace_def py_replace_def append_jsonl_def write_line_def
      utc_iso_def py_print_def FEEDBACK_JSONL_def LOG_DIR_def path_join_def try_primary_def Let_def)

lemma ready_world_fields [simp]:
  "client_error ready_world = None" "env_model ready_world = None"
  "provider ready_world = tool_provider" "system_prompt ready_world = U ''You are the assistant.''"
  "trace ready_world = []"
  by (simp_all add: ready_world_def demo_world_def del: U_Cons)

section \<open>The sanitizer is idempotent\<close>

text \<open>
  C10. For every string \<open>s\<close> and the default cap of 800, \<open>_clean(_clean(s))\<close> equals
  \<open>_clean(s)\<close>: \<open>_clean\<close> returns a string on \<open>s\<close>, and returns that same string when it
  is given it again.
\<close>

theorem clean_idempotent:
  "\<exists>r. clean (PStr s) 800 = Inr r \<and> clean (PStr r) 800 = Inr r"
proof -
  have "well_trimmed (clean_str s 800) \<and> int (length (clean_str s 800)) \<le> 800"
    by (rule clean_str_trimmed) simp
  then have "clean_str (clean_str s 800) 800 = clean_str s 800"
    by (simp add: clean_str_fix)
  then show ?thesis by simp
qed

section \<open>Malformed e-mail addresses\<close>

text \<open>
  C2, as amended. An address with no \<open>@\<close>, with no dot after its first \<open>@\<close>, or with a
  white-space character among the first 199 characters that remain once surrounding
  white space is stripped, is answered with "Invalid email address." and the world is
  left as it was: nothing is printed, no write is attempted, no file changes. It is
  assumed of \<open>str.lower\<close> that it keeps \<open>@\<close>, dots and white space in place.
\<close>

theorem malformed_email_rejected:
  assumes "lower_respects L"
      and "64 \<notin> set e \<or> 46 \<notin> set (domain_part e) \<or> (\<exists>c\<in>set (take 199 (py_strip e)). py_isspace c)"
  shows "record_customer_interest L (PStr e) (PStr n) (PStr m) w = (Inr (U ''Invalid email address.''), w)"
  using email_rejected_aux[OF assms] by (simp add: record_customer_interest_def Let_def del: U_Cons)

text \<open>Three addresses, one for each way of being malformed.\<close>

theorem malformed_email_rejected_witness:
  "lower_respects demo_lib \<and> 64 \<notin> set (U ''jane.example.com'')
   \<and> record_customer_interest demo_lib (PStr (U ''jane.example.com'')) (PStr (U ''Jane''))
        (PStr (U ''Pricing'')) demo_world = (Inr (U ''Invalid email address.''), demo_world)
   \<and> 46 \<notin> set (domain_part (U ''jane@example''))
   \<and> record_customer_interest demo_lib (PStr (U ''jane@example'')) (PStr (U ''Jane''))
        (PStr (U ''Pricing'')) demo_world = (Inr (U ''Invalid email address.''), demo_world)
   \<and> 32 \<in> set (take 199 (py_strip (U ''jane doe@example.com''))) \<and> py_isspace 32
   \<and> record_customer_interest demo_lib (PStr (U ''jane doe@example.com'')) (PStr (U ''Jane''))
        (PStr (U ''Pricing'')) demo_world = (Inr (U ''Invalid email address.''), demo_world)"
proof -
  have 1: "64 \<notin> set (U ''jane.example.com'')" by simp
  have 2: "46 \<notin> set (domain_part (U ''jane@example''))" by simp
  have 3: "32 \<in> set (take 199 (py_strip (U ''jane doe@example.com'')))"
    by (simp add: py_strip_def py_isspace_def)
  have h3: "\<exists>c\<in>set (take 199 (py_strip (U ''jane doe@example.com''))). py_isspace c"
  proof (rule bexI[of _ 32])
    show "py_isspace 32" by (simp add: py_isspace_def)
    show "32 \<in> set (take 199 (py_strip (U ''jane doe@example.com'')))" by (rule 3)
  qed
  show ?thesis
    using malformed_email_rejected[OF demo_lib_lower, of "U ''jane.example.com''"]
      malformed_email_rejected[OF demo_lib_lower, of "U ''jane@example''"]
      malformed_email_rejected[OF demo_lib_lower, of "U ''jane doe@example.com''"]
      1 2 3 h3 demo_lib_lower
    by (simp del: U_Cons)
qed

text \<open>
  C2 as stated fails: \<open>long_email\<close> has a space between two other characters, yet the
  address is cut to 199 characters and the marker before it is checked, the space is
  gone, and the lead is saved.
\<close>

theorem malformed_email_counterexample:
  "32 \<in> set (py_strip long_email) \<and> py_isspace 32
   \<and> hd (py_strip long_email) \<noteq> 32 \<and> last (py_strip long_email) \<noteq> 32
   \<and> fst (record_customer_interest demo_lib (PStr long_email) (PStr (U ''Jane''))
        (PStr (U ''Pricing'')) demo_world) = Inr (U ''Lead saved.'')
   \<and> files (snd (record_customer_interest demo_lib (PStr long_email) (PStr (U ''Jane''))
        (PStr (U ''Pricing'')) demo_world)) (LEADS_JSONL demo_world)
      = Some [JsonLine [(U ''timestamp'', U ''2024-01-01T00:00:00+00:00''),
                (U ''email'', U ''a@b.'' @ replicate 195 99 @ [ELLIPSIS]), (U ''name'', U ''Jane''),
                (U ''message'', U ''Pricing'')]]"
proof -
  have 1: "32 \<in> set (py_strip long_email) \<and> hd (py_strip long_email) \<noteq> 32 \<and> last (py_strip long_email) \<noteq> 32"
    unfolding strip_long_email by (simp add: long_email_def)
  have l: "str_lower demo_lib (U ''a@b.'' @ replicate 195 99 @ [ELLIPSIS])
      = U ''a@b.'' @ replicate 195 99 @ [ELLIPSIS]"
    using lower_long_email by (simp add: demo_lib_def)
  have p: "clean_str (if U ''Pricing'' \<noteq> [] then U ''Pricing'' else U ''General inquiry'') 800 = U ''Pricing''"
    using clean_jane(3) by simp
  have j: "U ''Jane'' \<noteq> []" by simp
  note run = lead_saved_run[OF clean_long_email l match_long_email clean_jane(2) j p
      demo_world_fields(1) demo_world_fields(2) demo_world_fields(8)]
  show ?thesis
    unfolding run using 1 by (simp del: U_Cons)
qed

section \<open>The stored message\<close>

text \<open>
  C3, as amended. When a lead is saved, its CSV row and its JSON object carry the same
  message \<open>s\<close>. With \<open>message_text m\<close> the message after the default for an empty one
  and after stripping: if that text is longer than 800, \<open>s\<close> has length exactly 800,
  ends in the ellipsis marker and begins with the first 799 characters of the collapsed
  text; otherwise \<open>s\<close> is the collapsed text.
\<close>

theorem stored_message_form:
  assumes "record_customer_interest L email name (PStr m) w = (Inr (U ''Lead saved.''), w')"
  shows "\<exists>ts e n s rows objs.
      files w' (LEADS_CSV w) = Some (rows @ [CsvRow [ts, e, n, s]]) \<and>
      files w' (LEADS_JSONL w) = Some (objs @ [JsonLine [(U ''timestamp'', ts), (U ''email'', e),
               (U ''name'', n), (U ''message'', s)]]) \<and>
      (if 800 < length (message_text m)
       then length s = 800 \<and> last s = ELLIPSIS \<and> butlast s = take 799 (collapse (message_text m))
       else s = collapse (message_text m))"
proof -
  define x where "x = (if m \<noteq> [] then m else U ''General inquiry'')"
  define s where "s = clean_str x 800"
  have mt: "message_text m = py_strip x" by (simp add: message_text_def x_def del: U_Cons)
  have form: "if 800 < length (message_text m)
       then length s = 800 \<and> last s = ELLIPSIS \<and> butlast s = take 799 (collapse (message_text m))
       else s = collapse (message_text m)"
  proof (cases "800 < length (py_strip x)")
    case True
    then show ?thesis using clean_str_long[of 800 x] by (simp add: mt s_def)
  next
    case False
    then show ?thesis using clean_str_short[of x 800] by (simp add: mt s_def)
  qed
  from stored_aux[OF assms, of s] obtain ts e n rows objs where
    "files w' (LEADS_CSV w) = Some (rows @ [CsvRow [ts, e, n, s]])"
    "files w' (LEADS_JSONL w) = Some (objs @ [JsonLine [(U ''timestamp'', ts), (U ''email'', e),
               (U ''name'', n), (U ''message'', s)]])"
    unfolding s_def x_def by blast
  with form show ?thesis by blast
qed

theorem stored_message_form_witness:
  "record_customer_interest demo_lib (PStr (U ''jane@example.com'')) (PStr (U ''Jane''))
        (PStr (U '' hi'')) demo_world
     = (Inr (U ''Lead saved.''),
        snd (record_customer_interest demo_lib (PStr (U ''jane@example.com'')) (PStr (U ''Jane''))
        (PStr (U '' hi'')) demo_world))
   \<and> \<not> 800 < length (message_text (U '' hi'')) \<and> collapse (message_text (U '' hi'')) = U ''hi''
   \<and> (\<exists>ts e n rows objs.
        files (snd (record_customer_interest demo_lib (PStr (U ''jane@example.com''))
          (PStr (U ''Jane'')) (PStr (U '' hi'')) demo_world)) (LEADS_CSV demo_world)
          = Some (rows @ [CsvRow [ts, e, n, U ''hi'']])
      \<and> files (snd (record_customer_interest demo_lib (PStr (U ''jane@example.com''))
          (PStr (U ''Jane'')) (PStr (U '' hi'')) demo_world)) (LEADS_JSONL demo_world)
          = Some (objs @ [JsonLine [(U ''timestamp'', ts), (U ''email'', e), (U ''name'', n),
               (U ''message'', U ''hi'')]]))"
proof -
  let ?r = "record_customer_interest demo_lib (PStr (U ''jane@example.com'')) (PStr (U ''Jane''))
        (PStr (U '' hi'')) demo_world"
  have c: "clean_str (if U '' hi'' \<noteq> [] then U '' hi'' else U ''General inquiry'') 800 = U ''hi''"
    using clean_jane(4) by simp
  have h: "?r = (Inr (U ''Lead saved.''), snd ?r)"
    unfolding demo_lead_run[OF c] by (simp del: U_Cons)
  have t: "message_text (U '' hi'') = U ''hi''"
    by (simp add: message_text_def py_strip_def py_isspace_def)
  have k: "collapse (U ''hi'') = U ''hi''" by (simp add: collapse_def py_replace_def)
  have short: "\<not> 800 < length (message_text (U '' hi''))" unfolding t by simp
  from stored_message_form[OF h] obtain ts e n s rows objs where
    f: "files (snd ?r) (LEADS_CSV demo_world) = Some (rows @ [CsvRow [ts, e, n, s]])"
       "files (snd ?r) (LEADS_JSONL demo_world) = Some (objs @ [JsonLine [(U ''timestamp'', ts),
          (U ''email'', e), (U ''name'', n), (U ''message'', s)]])"
    and g: "if 800 < length (message_text (U '' hi''))
       then length s = 800 \<and> last s = ELLIPSIS \<and> butlast s = take 799 (collapse (message_text (U '' hi'')))
       else s = collapse (message_text (U '' hi''))"
    by blast
  from g short have "s = U ''hi''" unfolding t k by (simp only: if_False)
  with f h short t k show ?thesis by (simp only:) blast
qed

text \<open>
  C3 as stated fails in both branches: a message of three characters is stored without
  its leading space, and a message of 801 characters is stored as 800 characters that do
  not end in the marker.
\<close>

theorem stored_message_counterexample:
  "length (U '' hi'') \<le> 800
   \<and> fst (record_customer_interest demo_lib (PStr (U ''jane@example.com'')) (PStr (U ''Jane''))
        (PStr (U '' hi'')) demo_world) = Inr (U ''Lead saved.'')
   \<and> files (snd (record_customer_interest demo_lib (PStr (U ''jane@example.com''))
        (PStr (U ''Jane'')) (PStr (U '' hi'')) demo_world)) (LEADS_JSONL demo_world)
      = Some [JsonLine [(U ''timestamp'', U ''2024-01-01T00:00:00+00:00''),
           (U ''email'', U ''jane@example.com''), (U ''name'', U ''Jane''), (U ''message'', U ''hi'')]]
   \<and> U ''hi'' \<noteq> collapse (U '' hi'')
   \<and> 800 < length padded_message
   \<and> fst (record_customer_interest demo_lib (PStr (U ''jane@example.com'')) (PStr (U ''Jane''))
        (PStr padded_message) demo_world) = Inr (U ''Lead saved.'')
   \<and> files (snd (record_customer_interest demo_lib (PStr (U ''jane@example.com''))
        (PStr (U ''Jane'')) (PStr padded_message) demo_world)) (LEADS_JSONL demo_world)
      = Some [JsonLine [(U ''timestamp'', U ''2024-01-01T00:00:00+00:00''),
           (U ''email'', U ''jane@example.com''), (U ''name'', U ''Jane''),
           (U ''message'', replicate 800 97)]]
   \<and> last (replicate 800 97) \<noteq> ELLIPSIS"
proof -
  have c: "clean_str (if U '' hi'' \<noteq> [] then U '' hi'' else U ''General inquiry'') 800 = U ''hi''"
    using clean_jane(4) by simp
  have d: "clean_str (if padded_message \<noteq> [] then padded_message else U ''General inquiry'') 800
      = replicate 800 97"
    using clean_padded by (simp add: padded_message_def)
  have k: "U ''hi'' \<noteq> collapse (U '' hi'')" by (simp add: collapse_def py_replace_def)
  have l: "800 < length padded_message" "last (replicate 800 97) \<noteq> ELLIPSIS"
    "length (U '' hi'') \<le> 800"
    by (simp_all add: padded_message_def ELLIPSIS_def)
  show ?thesis
    unfolding demo_lead_run[OF c] demo_lead_run[OF d] using k l by (simp del: U_Cons)
qed

section \<open>Blank names\<close>

text \<open>
  C8, as amended. For a name that is empty or white space only, \<open>record_customer_interest\<close>
  leaves the world as it was and returns "Please provide a name." when the cleaned,
  lower-cased address matches the pattern, and "Invalid email address." when it does
  not: the address is checked first.
\<close>

theorem blank_name_rejected:
  assumes "list_all py_isspace n"
  shows "record_customer_interest L (PStr e) (PStr n) (PStr m) w =
     (Inr (if re_match EMAIL_RE (str_lower L (clean_str e 200))
           then U ''Please provide a name.'' else U ''Invalid email address.''), w)"
proof -
  have "\<forall>c\<in>set n. py_isspace c" using assms by (simp add: list_all_iff)
  then have "clean_str n 200 = []" by (simp add: clean_blank)
  then show ?thesis by (simp add: record_customer_interest_def Let_def del: U_Cons)
qed

text \<open>A name of two spaces with a well-formed address, an empty name with a malformed one.\<close>

theorem blank_name_rejected_witness:
  "list_all py_isspace (U ''  '')
   \<and> re_match EMAIL_RE (str_lower demo_lib (clean_str (U ''jane@example.com'') 200))
   \<and> record_customer_interest demo_lib (PStr (U ''jane@example.com'')) (PStr (U ''  ''))
        (PStr (U ''Pricing'')) demo_world = (Inr (U ''Please provide a name.''), demo_world)
   \<and> \<not> re_match EMAIL_RE (str_lower demo_lib (clean_str (U ''nobody'') 200))
   \<and> record_customer_interest demo_lib (PStr (U ''nobody'')) (PStr [])
        (PStr (U ''Pricing'')) demo_world = (Inr (U ''Invalid email address.''), demo_world)"
proof -
  have 1: "list_all py_isspace (U ''  '')" by simp
  have 2: "list_all py_isspace ([]::ustr)" by simp
  have 3: "re_match EMAIL_RE (str_lower demo_lib (clean_str (U ''jane@example.com'') 200))"
    unfolding clean_jane(1) lower_jane by (rule match_jane)
  have 4: "\<not> re_match EMAIL_RE (str_lower demo_lib (clean_str (U ''nobody'') 200))"
    by (simp add: clean_str_def py_strip_def py_isspace_def py_replace_def ascii_lower_def
        EMAIL_RE_def)
  show ?thesis
    using blank_name_rejected[OF 1, of demo_lib "U ''jane@example.com''" "U ''Pricing''" demo_world]
      blank_name_rejected[OF 2, of demo_lib "U ''nobody''" "U ''Pricing''" demo_world] 1 3 4
    by (simp only: if_True if_False simp_thms)
qed

text \<open>C8 as stated fails: with a malformed address the answer is the invalid-email message.\<close>

theorem blank_name_counterexample:
  "record_customer_interest demo_lib (PStr (U ''nobody'')) (PStr []) (PStr (U ''Pricing'')) demo_world
     = (Inr (U ''Invalid email address.''), demo_world)
   \<and> U ''Invalid email address.'' \<noteq> U ''Please provide a name.''"
  by (simp add: record_customer_interest_def clean_str_def py_strip_def py_isspace_def
      py_replace_def ascii_lower_def EMAIL_RE_def Let_def)

section \<open>Feedback and its fallback\<close>

text \<open>
  What holds of \<open>record_feedback\<close> once its first trace line is printed: it returns a
  string; the primary file is tried once and the fallback file at most once; a failed
  primary write is always followed by the one fallback write; when both writes fail the
  answer names both failures.
\<close>

lemma feedback_when_printed:
  assumes "clean_str q 1000 \<noteq> []"
    and "print_fault w (U ''[FEEDBACK] '' @ now w @ U '' | '' @ clean_str q 1000) = None"
  shows "\<exists>s w'. record_feedback L (PStr q) w = (Inr s, w')
     \<and> (trace w' = trace w @ [FileWrite Append (FEEDBACK_JSONL w)
            (JsonLine [(U ''timestamp'', now w), (U ''question'', clean_str q 1000)])]
        \<or> trace w' = trace w @
           [FileWrite Append (FEEDBACK_JSONL w)
              (JsonLine [(U ''timestamp'', now w), (U ''question'', clean_str q 1000)]),
            FileWrite Append (FALLBACK_JSONL w)
              (JsonLine [(U ''timestamp'', now w), (U ''question'', clean_str q 1000)])])
     \<and> (\<forall>f1. faults w (length (trace w)) = Some f1 \<longrightarrow>
          trace w' = trace w @
           [FileWrite Append (FEEDBACK_JSONL w)
              (JsonLine [(U ''timestamp'', now w), (U ''question'', clean_str q 1000)]),
            FileWrite Append (FALLBACK_JSONL w)
              (JsonLine [(U ''timestamp'', now w), (U ''question'', clean_str q 1000)])])
     \<and> (\<forall>f1 f2. faults w (length (trace w)) = Some f1
            \<and> faults w (Suc (length (trace w))) = Some f2 \<longrightarrow>
          s = U ''Failed to record feedback: '' @ exc_str L (fault_exc f1)
              @ U '' | fallback error: '' @ exc_str L (fault_exc f2))"
proof -
  let ?entry = "[(U ''timestamp'', now w), (U ''question'', clean_str q 1000)]"
  let ?w1 = "w\<lparr>stdout := stdout w @ [U ''[FEEDBACK] '' @ now w @ U '' | '' @ clean_str q 1000]\<rparr>"
  have p: "py_print (U ''[FEEDBACK] '' @ now w @ U '' | '' @ clean_str q 1000) w = (Inr (), ?w1)"
    using assms(2) by (simp add: py_print_def del: U_Cons)
  obtain w2 where h2: "try_primary ?entry ?w1 =
       ((case faults ?w1 (length (trace ?w1)) of
           Some f \<Rightarrow> Inl (fault_exc f)
         | None \<Rightarrow>
             (case print_fault ?w1 (U ''[FEEDBACK'' @ [8594] @ FEEDBACK_JSONL ?w1 @ U ''] ok'') of
                Some e \<Rightarrow> Inl e
              | None \<Rightarrow> Inr (U ''Feedback recorded.''))), w2)"
    "trace w2 = trace ?w1 @ [FileWrite Append (FEEDBACK_JSONL ?w1) (JsonLine ?entry)]"
    "faults w2 = faults ?w1" "cwd w2 = cwd ?w1"
    using try_primary_result[of ?entry ?w1] by blast
  obtain w3 where h3: "try_fallback ?entry w2 =
       ((case faults w2 (length (trace w2)) of
           Some f \<Rightarrow> Inl (fault_exc f)
         | None \<Rightarrow>
             (case print_fault w2 (U ''[FEEDBACK'' @ [8594] @ FALLBACK_JSONL w2 @ U ''] fallback ok'') of
                Some e \<Rightarrow> Inl e
              | None \<Rightarrow> Inr (U ''Feedback recorded (fallback path used: '' @ FALLBACK_JSONL w2
                               @ U '')''))), w3)"
    "trace w3 = trace w2 @ [FileWrite Append (FALLBACK_JSONL w2) (JsonLine ?entry)]"
    using try_fallback_result[of ?entry w2] by blast
  have fb: "FALLBACK_JSONL w2 = FALLBACK_JSONL w" using h2(4) by (simp add: FALLBACK_JSONL_def)
  show ?thesis
    using assms(1) p h2 h3 fb
    by (auto simp: record_feedback_def Let_def utc_iso_def path_fields
        simp del: U_Cons split: option.splits)
qed

text \<open>
  C9, on the code. The trace line of line 88 is printed before the \<open>try\<close>. A question
  that holds a lone surrogate (as \<open>json.loads\<close> gives for the escape \<open>\ud800\<close>) cannot be
  written to a UTF-8 standard output: \<open>print\<close> raises and the exception leaves
  \<open>record_feedback\<close>, with nothing written. The two later trace lines are inside the
  \<open>try\<close> blocks: on an ASCII standard output their arrow cannot be written, and the
  exceptions are caught there. The primary write has then succeeded, the fallback
  file is written as well, and the answer is the composite failure text.
\<close>

theorem feedback_print_escapes:
  "clean_str [55296, 63] 1000 = [55296, 63]
   \<and> record_feedback demo_lib (PStr [55296, 63]) utf8_world
       = (Inl (Fault (U ''UnicodeEncodeError'') (U ''surrogates not allowed'')), utf8_world)
   \<and> record_feedback demo_lib (PStr (U ''hours?'')) ascii_world
       = (Inr (U ''Failed to record feedback: ordinal not in range(128) | fallback error: ordinal not in range(128)''),
          ascii_world\<lparr>stdout := [U ''[FEEDBACK] 2024-01-01T00:00:00+00:00 | hours?''],
            trace := [FileWrite Append (U ''/app/logs/feedback.jsonl'')
                        (JsonLine [(U ''timestamp'', U ''2024-01-01T00:00:00+00:00''),
                           (U ''question'', U ''hours?'')]),
                      FileWrite Append (U ''/srv/logs/feedback.jsonl'')
                        (JsonLine [(U ''timestamp'', U ''2024-01-01T00:00:00+00:00''),
                           (U ''question'', U ''hours?'')])],
            files := [U ''/app/logs/feedback.jsonl'' \<mapsto>
                        [JsonLine [(U ''timestamp'', U ''2024-01-01T00:00:00+00:00''),
                           (U ''question'', U ''hours?'')]],
                      U ''/srv/logs/feedback.jsonl'' \<mapsto>
                        [JsonLine [(U ''timestamp'', U ''2024-01-01T00:00:00+00:00''),
                           (U ''question'', U ''hours?'')]]]\<rparr>)"
  by (simp add: record_feedback_def try_primary_def try_fallback_def utf8_world_def
      ascii_world_def utf8_print_fault_def ascii_print_fault_def demo_world_def clean_str_def
      py_strip_def py_isspace_def py_replace_def append_jsonl_def write_line_def utc_iso_def
      py_print_def FEEDBACK_JSONL_def FALLBACK_JSONL_def LOG_DIR_def path_join_def exc_str_def
      Let_def)

section \<open>The dispatcher never raises\<close>

text \<open>
  C5. \<open>_dispatch_tool\<close> returns a string for every name and every argument value. An
  unknown name gives "Unknown tool: <name>" and leaves the world as it was. For a known
  tool whose normalised arguments do not fit its parameters, the answer is
  "Tool '<name>' argument error: " followed by the text of a TypeError. When the handler
  itself raises, the answer names the tool and the text of the exception, after
  "failed: " (after "argument error: " should the exception be a TypeError).
\<close>

theorem dispatch_tool_total:
  "(\<exists>s w'. dispatch_tool L name args w = (Inr s, w'))
   \<and> (tool_params name = None \<longrightarrow>
        dispatch_tool L name args w = (Inr (U ''Unknown tool: '' @ name), w))
   \<and> (\<forall>params. tool_params name = Some params \<and> \<not> args_fit params (normalize_args L args) \<longrightarrow>
        (\<exists>e. is_TypeError e \<and> dispatch_tool L name args w =
           (Inr (U ''Tool '' @ [39] @ name @ [39] @ U '' argument error: '' @ exc_str L e), w)))
   \<and> (\<forall>params a e w1. tool_params name = Some params
          \<and> bind_kwargs name params (normalize_args L args) = Inr a
          \<and> handler L name a w = (Inl e, w1) \<longrightarrow>
        dispatch_tool L name args w =
           (Inr (U ''Tool '' @ [39] @ name @ [39]
                 @ (if is_TypeError e then U '' argument error: '' else U '' failed: '')
                 @ exc_str L e), w1))"
proof (intro conjI allI impI)
  show "\<exists>s w'. dispatch_tool L name args w = (Inr s, w')" by (rule dispatch_tool_returns)
next
  assume "tool_params name = None"
  then show "dispatch_tool L name args w = (Inr (U ''Unknown tool: '' @ name), w)"
    by (simp add: dispatch_tool_def dispatch_body_unknown del: U_Cons)
next
  fix params
  assume h: "tool_params name = Some params \<and> \<not> args_fit params (normalize_args L args)"
  then obtain e where e: "bind_kwargs name params (normalize_args L args) = Inl e" "is_TypeError e"
    using bind_kwargs_misfit by blast
  then have "dispatch_tool L name args w =
           (Inr (U ''Tool '' @ [39] @ name @ [39] @ U '' argument error: '' @ exc_str L e), w)"
    using h by (simp add: dispatch_tool_def dispatch_body_known del: U_Cons)
  with e(2) show "\<exists>e. is_TypeError e \<and> dispatch_tool L name args w =
           (Inr (U ''Tool '' @ [39] @ name @ [39] @ U '' argument error: '' @ exc_str L e), w)"
    by blast
next
  fix params a e w1
  assume "tool_params name = Some params
          \<and> bind_kwargs name params (normalize_args L args) = Inr a
          \<and> handler L name a w = (Inl e, w1)"
  then show "dispatch_tool L name args w =
           (Inr (U ''Tool '' @ [39] @ name @ [39]
                 @ (if is_TypeError e then U '' argument error: '' else U '' failed: '')
                 @ exc_str L e), w1)"
    by (simp add: dispatch_tool_def dispatch_body_known del: U_Cons)
qed

text \<open>An unknown tool, a call with no arguments, and a lead whose write is refused.\<close>

theorem dispatch_tool_total_witness:
  "tool_params (U ''get_weather'') = None
   \<and> dispatch_tool demo_lib (U ''get_weather'') (PDict []) demo_world
       = (Inr (U ''Unknown tool: get_weather''), demo_world)
   \<and> tool_params (U ''record_feedback'') = Some [U ''question'']
   \<and> \<not> args_fit [U ''question''] (normalize_args demo_lib (PStr []))
   \<and> dispatch_tool demo_lib (U ''record_feedback'') (PStr []) demo_world
       = (Inr (U ''Tool '' @ [39] @ U ''record_feedback'' @ [39] @ U '' argument error: <message>''),
          demo_world)
   \<and> tool_params (U ''record_customer_interest'') = Some [U ''email'', U ''name'', U ''message'']
   \<and> bind_kwargs (U ''record_customer_interest'') [U ''email'', U ''name'', U ''message'']
        (normalize_args demo_lib (PDict jane_args)) = Inr jane_bound
   \<and> fst (handler demo_lib (U ''record_customer_interest'') jane_bound failing_world)
        = Inl (Fault (U ''PermissionError'') (U ''denied''))
   \<and> fst (dispatch_tool demo_lib (U ''record_customer_interest'') (PDict jane_args) failing_world)
       = Inr (U ''Tool '' @ [39] @ U ''record_customer_interest'' @ [39] @ U '' failed: denied'')"
proof -
  have p1: "tool_params (U ''get_weather'') = None" by (simp add: tool_params_def)
  have p2: "tool_params (U ''record_feedback'') = Some [U ''question'']"
    by (simp add: tool_params_def)
  have p3: "tool_params (U ''record_customer_interest'') = Some [U ''email'', U ''name'', U ''message'']"
    by (simp add: tool_params_def)
  have m: "\<not> args_fit [U ''question''] (normalize_args demo_lib (PStr []))"
    by (simp add: args_fit_def normalize_args_def)
  have a: "dispatch_tool demo_lib (U ''get_weather'') (PDict []) demo_world
       = (Inr (U ''Unknown tool: get_weather''), demo_world)"
    using dispatch_tool_total[of demo_lib "U ''get_weather''" "PDict []" demo_world] p1 by simp
  obtain e where "dispatch_tool demo_lib (U ''record_feedback'') (PStr []) demo_world
       = (Inr (U ''Tool '' @ [39] @ U ''record_feedback'' @ [39] @ U '' argument error: '' @ exc_str demo_lib e),
          demo_world)"
    using dispatch_tool_total[of demo_lib "U ''record_feedback''" "PStr []" demo_world] p2 m by blast
  moreover have "exc_str demo_lib e = U ''<message>''" if "\<not> (\<exists>c m. e = Fault c m)" for e
    using that by (cases e) (simp_all add: exc_str_def demo_lib_def)
  moreover have "fst (dispatch_tool demo_lib (U ''record_feedback'') (PStr []) demo_world)
       = Inr (U ''Tool '' @ [39] @ U ''record_feedback'' @ [39] @ U '' argument error: <message>'')"
    by (simp add: dispatch_tool_def dispatch_body_def normalize_args_def bind_kwargs_def
        exc_str_def demo_lib_def)
  ultimately have b: "dispatch_tool demo_lib (U ''record_feedback'') (PStr []) demo_world
       = (Inr (U ''Tool '' @ [39] @ U ''record_feedback'' @ [39] @ U '' argument error: <message>''),
          demo_world)"
    by (metis fst_conv)
  have h: "handler demo_lib (U ''record_customer_interest'') jane_bound failing_world
      = (Inl (Fault (U ''PermissionError'') (U ''denied'')),
         snd (handler demo_lib (U ''record_customer_interest'') jane_bound failing_world))"
    unfolding jane_fails by (simp del: U_Cons)
  have c: "fst (dispatch_tool demo_lib (U ''record_customer_interest'') (PDict jane_args) failing_world)
       = Inr (U ''Tool '' @ [39] @ U ''record_customer_interest'' @ [39] @ U '' failed: denied'')"
    using dispatch_tool_total[of demo_lib "U ''record_customer_interest''" "PDict jane_args" failing_world]
      p3 jane_bind h
    by (simp add: exc_str_def)
  show ?thesis using p1 p2 p3 m a b jane_bind c jane_fails by (simp del: U_Cons)
qed

section \<open>Normalising the arguments\<close>

text \<open>
  C4, on the code. The text \<open>[1, 2]\<close> parses to a list, and the \<open>elif\<close> that empties
  values which are not dicts is not reached for a string: the list itself goes to the
  call, which fails on it. The same list given directly is emptied first.
\<close>

theorem text_list_not_emptied:
  "normalize_args demo_lib (PStr (U ''[1, 2]'')) = PList [PInt 1, PInt 2]
   \<and> normalize_args demo_lib (PList [PInt 1, PInt 2]) = PDict []
   \<and> dispatch_tool demo_lib (U ''record_feedback'') (PStr (U ''[1, 2]'')) demo_world
       = (Inr (U ''Tool '' @ [39] @ U ''record_feedback'' @ [39] @ U '' argument error: ''
               @ runtime_msg demo_lib (NotAMapping (U ''record_feedback'') (PList [PInt 1, PInt 2]))),
          demo_world)
   \<and> dispatch_tool demo_lib (U ''record_feedback'') (PList [PInt 1, PInt 2]) demo_world
       = (Inr (U ''Tool '' @ [39] @ U ''record_feedback'' @ [39] @ U '' argument error: ''
               @ runtime_msg demo_lib (MissingArguments (U ''record_feedback'') [U ''question''])),
          demo_world)"
  by (simp add: normalize_args_def demo_loads_def dispatch_tool_def dispatch_body_def
      bind_kwargs_def exc_str_def)

section \<open>The history adapter\<close>

text \<open>
  C6. An absent or empty history gives the empty sequence. On a list (or tuple) of
  role-tagged messages \<open>_tuplize\<close> returns exactly \<open>spec_pairs\<close>: each assistant message
  is paired with the most recent unmatched user message, which is then cleared. A user
  message at the end, with no assistant message after it, changes nothing. The adapter
  takes no world and returns none: it is a function of its argument.
\<close>

theorem tuplize_role_tagged:
  "tuplize L PNone = Inr [] \<and> tuplize L (PList []) = Inr []
   \<and> tuplize L (PList (map PDict ds)) = Inr (spec_pairs ds)
   \<and> tuplize L (PTuple (map PDict ds)) = Inr (spec_pairs ds)
   \<and> tuplize L (PList (map PDict (ds @ [[(U ''role'', PStr (U ''user'')), (U ''content'', c)]])))
       = tuplize L (PList (map PDict ds))"
proof -
  have u: "\<not> is_assistant [(U ''role'', PStr (U ''user'')), (U ''content'', c)]"
    by (simp add: is_assistant_def msg_role_def dict_get_def)
  have "spec_pairs (ds @ [[(U ''role'', PStr (U ''user'')), (U ''content'', c)]]) = spec_pairs ds"
    using u by (simp add: spec_pairs_snoc del: U_Cons)
  then have d: "tuplize L (PList (map PDict (ds @ [[(U ''role'', PStr (U ''user'')), (U ''content'', c)]])))
       = tuplize L (PList (map PDict ds))"
    by (simp only: tuplize_dicts)
  have e: "tuplize L PNone = Inr []" "tuplize L (PList []) = Inr []"
    by (simp_all add: tuplize_def)
  show ?thesis using d e tuplize_dicts tuplize_dicts_tuple by blast
qed

text \<open>
  On \<open>demo_history\<close>: the first user message is superseded, the second assistant
  message finds no pending user, the trailing user message is dropped.
\<close>

theorem tuplize_role_tagged_witness:
  "tuplize demo_lib (PList (map PDict demo_history)) =
     Inr [(PStr (U ''hours?''), PStr (U ''9 to 5'')), (PStr [], PStr (U ''anything else?''))]
   \<and> spec_pairs demo_history =
     [(PStr (U ''hours?''), PStr (U ''9 to 5'')), (PStr [], PStr (U ''anything else?''))]"
proof -
  have "tuplize demo_lib (PList (map PDict demo_history)) =
     Inr [(PStr (U ''hours?''), PStr (U ''9 to 5'')), (PStr [], PStr (U ''anything else?''))]"
    by (simp add: tuplize_def tuplize_seq_def is_pair_shape_def demo_history_def dict_get_def
        py_or_def)
  then show ?thesis
    using tuplize_role_tagged[of demo_lib demo_history PNone] by simp
qed

section \<open>The readiness check\<close>

text \<open>
  C7, as amended. When no credential is set, or the credential is empty, or it is at
  most 40 characters long (before or after surrounding white space is stripped), or it
  does not begin with \<open>sk-\<close> once surrounding white space is stripped, \<open>run_agent\<close>
  returns the setup message and the world is as it was: no provider call is in the
  trace. The check reads the credential and nothing else.
\<close>

theorem unusable_credential_setup:
  "(env_api_key w = None \<longrightarrow> run_agent L user_text history w = (SETUP_MSG, w))
   \<and> (\<forall>k. env_api_key w = Some k
          \<and> (k = [] \<or> length k \<le> 40 \<or> length (py_strip k) \<le> 40
              \<or> \<not> py_startswith (py_strip k) (U ''sk-''))
        \<longrightarrow> run_agent L user_text history w = (SETUP_MSG, w))"
proof (intro conjI allI impI)
  assume "env_api_key w = None"
  then have "\<not> provider_ready w" by (simp add: provider_ready_def py_strip_def)
  then show "run_agent L user_text history w = (SETUP_MSG, w)" by (simp add: run_agent_def)
next
  fix k
  assume h: "env_api_key w = Some k
          \<and> (k = [] \<or> length k \<le> 40 \<or> length (py_strip k) \<le> 40
              \<or> \<not> py_startswith (py_strip k) (U ''sk-''))"
  have "length (py_strip k) \<le> 40 \<or> \<not> py_startswith (py_strip k) (U ''sk-'')"
    using h length_strip_le[of k] by auto
  then have "\<not> provider_ready w"
    using h startswith_proj[of "py_strip k"] by (auto simp: provider_ready_def Let_def simp del: U_Cons)
  then show "run_agent L user_text history w = (SETUP_MSG, w)" by (simp add: run_agent_def)
qed

text \<open>No credential, a short one, and a long one with another prefix.\<close>

theorem unusable_credential_setup_witness:
  "env_api_key demo_world = None
   \<and> run_agent demo_lib (U ''hi'') PNone demo_world = (SETUP_MSG, demo_world)
   \<and> length (U ''sk-short'') \<le> 40
   \<and> run_agent demo_lib (U ''hi'') PNone (demo_world\<lparr>env_api_key := Some (U ''sk-short'')\<rparr>)
       = (SETUP_MSG, demo_world\<lparr>env_api_key := Some (U ''sk-short'')\<rparr>)
   \<and> \<not> py_startswith (py_strip (U ''pk-'' @ replicate 50 97)) (U ''sk-'')
   \<and> run_agent demo_lib (U ''hi'') PNone (demo_world\<lparr>env_api_key := Some (U ''pk-'' @ replicate 50 97)\<rparr>)
       = (SETUP_MSG, demo_world\<lparr>env_api_key := Some (U ''pk-'' @ replicate 50 97)\<rparr>)"
proof -
  have 1: "env_api_key demo_world = None" by (simp add: demo_world_def)
  have 2: "length (U ''sk-short'') \<le> 40" by simp
  have s: "py_strip (U ''pk-'' @ replicate 50 97) = U ''pk-'' @ replicate 50 97"
    by (rule strip_no_edges) (simp_all add: py_isspace_def)
  have 3: "\<not> py_startswith (py_strip (U ''pk-'' @ replicate 50 97)) (U ''sk-'')"
    unfolding s by (simp add: py_startswith_def)
  show ?thesis
    using unusable_credential_setup[of demo_world demo_lib "U ''hi''" PNone]
      unusable_credential_setup[of "demo_world\<lparr>env_api_key := Some (U ''sk-short'')\<rparr>" demo_lib "U ''hi''" PNone]
      unusable_credential_setup[of "demo_world\<lparr>env_api_key := Some (U ''pk-'' @ replicate 50 97)\<rparr>" demo_lib "U ''hi''" PNone]
      1 2 3
    by (simp del: U_Cons)
qed

text \<open>
  C7 as stated fails: \<open>padded_key\<close> does not begin with \<open>sk-\<close> (it begins with a space),
  yet it is stripped before it is tested, the check passes and the provider is called.
\<close>

theorem unusable_credential_counterexample:
  "\<not> py_startswith padded_key (U ''sk-'')
   \<and> run_agent demo_lib (U ''hi'') PNone
        (demo_world\<lparr>env_api_key := Some padded_key, provider := plain_provider\<rparr>)
      = (U ''We are open 9-5'',
         demo_world\<lparr>env_api_key := Some padded_key, provider := plain_provider,
           trace := [ProviderCall \<lparr>req_model = U ''gpt-4o-mini'',
              req_messages = [Msg (U ''system'') (PStr (U ''You are the assistant.'')),
                              Msg (U ''user'') (PStr (U ''hi''))],
              req_tools = True\<rparr>]\<rparr>)
   \<and> U ''We are open 9-5'' \<noteq> SETUP_MSG"
proof -
  have s: "py_strip padded_key = U ''sk-'' @ replicate 40 97"
  proof -
    have "dropWhile py_isspace padded_key = U ''sk-'' @ replicate 40 97"
      by (simp add: padded_key_def py_isspace_def)
    moreover have "dropWhile py_isspace (rev (U ''sk-'' @ replicate 40 97)) = rev (U ''sk-'' @ replicate 40 97)"
      by (simp add: dropWhile_eq_self_iff py_isspace_def)
    ultimately show ?thesis by (simp add: py_strip_def)
  qed
  have r: "provider_ready (demo_world\<lparr>env_api_key := Some padded_key, provider := plain_provider\<rparr>)"
    by (simp add: provider_ready_def s py_startswith_def)
  have n: "\<not> py_startswith padded_key (U ''sk-'')"
    by (simp add: py_startswith_def padded_key_def)
  show ?thesis
    using r n
    by (simp add: run_agent_def agent_body_def tuplize_def build_messages_def call_provider_def
        plain_provider_def content_or_placeholder_def demo_world_def SETUP_MSG_def)
qed

section \<open>The tool round\<close>

text \<open>
  C1. Suppose the credential is usable, the client is constructed, the history is
  accepted, and the first answer of the provider asks for tool calls. Then there are
  result strings and worlds, one result for each call: call \<open>i\<close> is dispatched in the
  world the calls before it left, returns the string \<open>results ! i\<close> (never an
  exception), and adds only file writes to the trace. The second request carries the
  first request's messages, the record of the calls, and for each call in order its
  tool message with its identifier, its name and its result. It is issued in the world
  the last call left, so after every call has returned, and \<open>run_agent\<close> returns what
  that second call gives.
\<close>

theorem tool_calls_all_dispatched:
  fixes L :: pylib and w :: world and m :: reply
  defines "model \<equiv> (case env_model w of None \<Rightarrow> U ''gpt-4o-mini'' | Some x \<Rightarrow> x)"
  assumes "provider_ready w" and "client_error w = None" and "tuplize L history = Inr pairs"
    and "provider w \<lparr>req_model = model, req_messages = build_messages w pairs user_text,
           req_tools = True\<rparr> = Inr (m # ms)"
    and "tool_calls m \<noteq> []"
  shows "\<exists>results worlds.
       length results = length (tool_calls m) \<and> length worlds = Suc (length (tool_calls m))
     \<and> worlds ! 0 = w\<lparr>trace := trace w @ [ProviderCall \<lparr>req_model = model,
                          req_messages = build_messages w pairs user_text, req_tools = True\<rparr>]\<rparr>
     \<and> (\<forall>i<length (tool_calls m).
           dispatch_tool L (tc_name (tool_calls m ! i))
             (parse_arguments L (tc_arguments (tool_calls m ! i))) (worlds ! i)
             = (Inr (results ! i), worlds ! Suc i)
           \<and> only_writes (worlds ! i) (worlds ! Suc i))
     \<and> run_agent L user_text history w =
         (final_answer L (provider w \<lparr>req_model = model,
             req_messages = build_messages w pairs user_text @ [ToolCallsMsg (tool_calls m)]
                @ map2 tool_message (tool_calls m) results,
             req_tools = False\<rparr>),
          (last worlds)\<lparr>trace := trace (last worlds) @ [ProviderCall \<lparr>req_model = model,
             req_messages = build_messages w pairs user_text @ [ToolCallsMsg (tool_calls m)]
                @ map2 tool_message (tool_calls m) results,
             req_tools = False\<rparr>]\<rparr>)"
proof -
  let ?msgs = "build_messages w pairs user_text"
  let ?req1 = "\<lparr>req_model = model, req_messages = ?msgs, req_tools = True\<rparr>"
  let ?w1 = "w\<lparr>trace := trace w @ [ProviderCall ?req1]\<rparr>"
  let ?tcs = "tool_calls m"
  from tool_round_all[of ?tcs ?w1 L "?msgs @ [ToolCallsMsg ?tcs]"]
  obtain results worlds where r: "length results = length ?tcs" "length worlds = Suc (length ?tcs)"
    "worlds ! 0 = ?w1"
    "\<forall>i<length ?tcs.
           dispatch_tool L (tc_name (?tcs ! i)) (parse_arguments L (tc_arguments (?tcs ! i)))
             (worlds ! i) = (Inr (results ! i), worlds ! Suc i)"
    "tool_round L ?tcs (?msgs @ [ToolCallsMsg ?tcs]) ?w1
       = (Inr ((?msgs @ [ToolCallsMsg ?tcs]) @ map2 tool_message ?tcs results), last worlds)"
    by blast
  let ?req2 = "\<lparr>req_model = model,
             req_messages = ?msgs @ [ToolCallsMsg ?tcs] @ map2 tool_message ?tcs results,
             req_tools = False\<rparr>"
  have ow: "\<forall>i<length ?tcs. only_writes (worlds ! i) (worlds ! Suc i)"
    using r(4) only_writes_dispatch by blast
  have "only_writes (worlds ! 0) (last worlds)"
    using only_writes_chain[OF r(2) ow] .
  then have pr: "provider (last worlds) = provider w"
    unfolding r(3) by (simp add: only_writes_def)
  have c1: "call_provider ?req1 w = (Inr m, ?w1)"
    using assms(5) by (simp add: call_provider_eq)
  have body: "agent_body L user_text history w =
      ((case provider w ?req2 of Inl e \<Rightarrow> Inl e | Inr [] \<Rightarrow> Inl IndexError
          | Inr (f # fs) \<Rightarrow> Inr (content_or_placeholder f)),
       (last worlds)\<lparr>trace := trace (last worlds) @ [ProviderCall ?req2]\<rparr>)"
    using assms(3,4,6) c1 r(5)
    by (simp add: agent_body_def Let_def model_def[symmetric] call_provider_eq pr
        split: sum.splits list.splits del: U_Cons)
  have run: "run_agent L user_text history w =
         (final_answer L (provider w ?req2),
          (last worlds)\<lparr>trace := trace (last worlds) @ [ProviderCall ?req2]\<rparr>)"
    using assms(2) body
    by (simp add: run_agent_def final_answer_def split: sum.splits list.splits del: U_Cons)
  show ?thesis
    using r(1,2,3,4) ow run by blast
qed

text \<open>
  A round of two calls: the first names an unknown tool and gets the failure string,
  the second is still dispatched and writes the feedback line between the two provider
  calls.
\<close>

theorem tool_calls_all_dispatched_witness:
  "provider_ready ready_world \<and> client_error ready_world = None
   \<and> tuplize demo_lib PNone = Inr []
   \<and> provider ready_world
        \<lparr>req_model = (case env_model ready_world of None \<Rightarrow> U ''gpt-4o-mini'' | Some x \<Rightarrow> x),
         req_messages = build_messages ready_world [] (U ''Do you accept Bitcoin?''),
         req_tools = True\<rparr> = Inr [\<lparr>content = None, tool_calls = demo_calls\<rparr>]
   \<and> tool_calls \<lparr>content = None, tool_calls = demo_calls\<rparr> \<noteq> []
   \<and> (\<exists>results worlds.
         length results = length demo_calls \<and> length worlds = Suc (length demo_calls)
       \<and> worlds ! 0 = ready_world\<lparr>trace := [ProviderCall \<lparr>req_model = U ''gpt-4o-mini'',
              req_messages = build_messages ready_world [] (U ''Do you accept Bitcoin?''),
              req_tools = True\<rparr>]\<rparr>
       \<and> (\<forall>i<length demo_calls.
             dispatch_tool demo_lib (tc_name (demo_calls ! i))
               (parse_arguments demo_lib (tc_arguments (demo_calls ! i))) (worlds ! i)
               = (Inr (results ! i), worlds ! Suc i)
             \<and> only_writes (worlds ! i) (worlds ! Suc i))
       \<and> run_agent demo_lib (U ''Do you accept Bitcoin?'') PNone ready_world =
           (final_answer demo_lib (tool_provider \<lparr>req_model = U ''gpt-4o-mini'',
               req_messages = build_messages ready_world [] (U ''Do you accept Bitcoin?'')
                  @ [ToolCallsMsg demo_calls] @ map2 tool_message demo_calls results,
               req_tools = False\<rparr>),
            (last worlds)\<lparr>trace := trace (last worlds) @ [ProviderCall \<lparr>req_model = U ''gpt-4o-mini'',
               req_messages = build_messages ready_world [] (U ''Do you accept Bitcoin?'')
                  @ [ToolCallsMsg demo_calls] @ map2 tool_message demo_calls results,
               req_tools = False\<rparr>]\<rparr>))
   \<and> fst (run_agent demo_lib (U ''Do you accept Bitcoin?'') PNone ready_world) = U ''Noted.''
   \<and> trace (snd (run_agent demo_lib (U ''Do you accept Bitcoin?'') PNone ready_world)) =
          [ProviderCall \<lparr>req_model = U ''gpt-4o-mini'',
              req_messages = [Msg (U ''system'') (PStr (U ''You are the assistant.'')),
                              Msg (U ''user'') (PStr (U ''Do you accept Bitcoin?''))],
              req_tools = True\<rparr>,
           FileWrite Append (U ''/app/logs/feedback.jsonl'')
             (JsonLine [(U ''timestamp'', U ''2024-01-01T00:00:00+00:00''),
                (U ''question'', U ''Do you accept Bitcoin?'')]),
           ProviderCall \<lparr>req_model = U ''gpt-4o-mini'',
              req_messages = [Msg (U ''system'') (PStr (U ''You are the assistant.'')),
                              Msg (U ''user'') (PStr (U ''Do you accept Bitcoin?'')),
                              ToolCallsMsg demo_calls,
                              ToolMsg (U ''call_1'') (U ''get_weather'') (U ''Unknown tool: get_weather''),
                              ToolMsg (U ''call_2'') (U ''record_feedback'') (U ''Feedback recorded.'')],
              req_tools = False\<rparr>]"
proof -
  have h3: "tuplize demo_lib PNone = Inr []" by (simp add: tuplize_def)
  have h4: "provider ready_world
        \<lparr>req_model = (case env_model ready_world of None \<Rightarrow> U ''gpt-4o-mini'' | Some x \<Rightarrow> x),
         req_messages = build_messages ready_world [] (U ''Do you accept Bitcoin?''),
         req_tools = True\<rparr> = Inr [\<lparr>content = None, tool_calls = demo_calls\<rparr>]"
    by (simp add: tool_provider_def del: U_Cons)
  have h5: "tool_calls \<lparr>content = None, tool_calls = demo_calls\<rparr> \<noteq> []"
    by (simp add: demo_calls_def)
  have h2: "client_error ready_world = None"
    by (simp add: ready_world_def demo_world_def)
  note t = tool_calls_all_dispatched[OF ready_world_ready h2 h3 h4 h5]
  show ?thesis
    using t ready_world_ready h2 h3 h4 h5
    unfolding demo_run
    by (simp del: U_Cons)
qed

end
